theory Spec2Isabelle
  imports Main "HOL-Library.Sublist"
begin

section \<open>JavaScript values\<close>

text \<open>
  Raw texts (model output, prompts, titles, slugs, identifiers) are \<open>string\<close>s: sequences
  of 8-bit code units, the Latin-1 range of a JavaScript string. A string that is the
  payload of a JSON value (a member name or a string value) is a sequence of code units
  held as natural numbers, because an escape \<open>\\uXXXX\<close> in an 8-bit text can denote any
  16-bit code unit. \<open>js\<close> embeds a raw text into such a payload.
\<close>

type_synonym jsstr = "nat list"

definition js :: "string \<Rightarrow> jsstr" where
  "js s = map of_char s"

text \<open>
  A value produced by \<open>JSON.parse\<close>. A number is held as a literal that denotes its
  double: the code under study never computes with a parsed number, it only tests it for
  truthiness and writes it back as JSON text. An object is the list of its members in
  insertion order, each name once. (JavaScript enumerates integer-like names first; no
  function below observes the order of members, only which names are present and what
  they hold.)
\<close>

datatype json =
    JNull
  | JBool bool
  | JNumber string
  | JString jsstr
  | JArray "json list"
  | JObject "(jsstr \<times> json) list"

text \<open>\<open>obj[k] = v\<close> on a member list: overwrite in place, or append.\<close>

fun obj_put :: "jsstr \<Rightarrow> 'v \<Rightarrow> (jsstr \<times> 'v) list \<Rightarrow> (jsstr \<times> 'v) list" where
  "obj_put k v [] = [(k, v)]"
| "obj_put k v ((k', v') # ms) =
     (if k' = k then (k, v) # ms else (k', v') # obj_put k v ms)"

text \<open>Copying a run of members into an object, left to right (later members win).\<close>

definition obj_assign :: "(jsstr \<times> 'v) list \<Rightarrow> (jsstr \<times> 'v) list \<Rightarrow> (jsstr \<times> 'v) list" where
  "obj_assign target ms = fold (\<lambda>(k, v) acc. obj_put k v acc) ms target"

section \<open>JSON.parse\<close>

text \<open>
  The platform's \<open>JSON.parse\<close> on an 8-bit text: \<open>None\<close> stands for the SyntaxError it
  throws. The text is cut into tokens, then a stack automaton reads one value.
\<close>

datatype token =
    TLBrace | TRBrace | TLBrack | TRBrack | TColon | TComma
  | TStr jsstr | TNum string | TTrue | TFalse | TNull

definition digit :: "char \<Rightarrow> bool" where
  "digit c \<longleftrightarrow> c \<in> set ''0123456789''"

definition hexval :: "char \<Rightarrow> nat option" where
  "hexval c =
     (if digit c then Some (of_char c - 48)
      else if c \<in> set ''abcdef'' then Some (of_char c - 87)
      else if c \<in> set ''ABCDEF'' then Some (of_char c - 55)
      else None)"

definition hex4 :: "char \<Rightarrow> char \<Rightarrow> char \<Rightarrow> char \<Rightarrow> nat option" where
  "hex4 a b c d =
     (case (hexval a, hexval b, hexval c, hexval d) of
        (Some x, Some y, Some z, Some w) \<Rightarrow> Some (((x * 16 + y) * 16 + z) * 16 + w)
      | _ \<Rightarrow> None)"

text \<open>The single-character escapes of a JSON string.\<close>

definition unescape :: "char \<Rightarrow> nat option" where
  "unescape e =
     (if e = CHR 0x22 then Some 0x22
      else if e = CHR 0x5C then Some 0x5C
      else if e = CHR ''/'' then Some 0x2F
      else if e = CHR ''b'' then Some 8
      else if e = CHR ''f'' then Some 12
      else if e = CHR ''n'' then Some 10
      else if e = CHR ''r'' then Some 13
      else if e = CHR ''t'' then Some 9
      else None)"

text \<open>
  The body of a string literal, read after its opening quote: the decoded code units and
  the text after the closing quote. Control characters must be escaped.
\<close>

fun lex_string :: "string \<Rightarrow> (jsstr \<times> string) option" where
  "lex_string [] = None"
| "lex_string (c # cs) =
     (if c = CHR 0x22 then Some ([], cs)
      else if c = CHR 0x5C then
        (case cs of
           [] \<Rightarrow> None
         | e # cs' \<Rightarrow>
             (if e = CHR ''u'' then
                (case cs' of
                   h1 # h2 # h3 # h4 # r \<Rightarrow>
                     (case hex4 h1 h2 h3 h4 of
                        None \<Rightarrow> None
                      | Some n \<Rightarrow> map_option (\<lambda>(u, r'). (n # u, r')) (lex_string r))
                 | _ \<Rightarrow> None)
              else
                (case unescape e of
                   None \<Rightarrow> None
                 | Some n \<Rightarrow> map_option (\<lambda>(u, r'). (n # u, r')) (lex_string cs'))))
      else if (of_char c :: nat) < 32 then None
      else map_option (\<lambda>(u, r'). (of_char c # u, r')) (lex_string cs))"

text \<open>
  A number literal: \<open>-? (0 | [1-9][0-9]*) (. [0-9]+)? ([eE] [+-]? [0-9]+)?\<close>. Each part
  returns what it read and the rest.
\<close>

definition int_part :: "string \<Rightarrow> (string \<times> string) option" where
  "int_part s =
     (case s of
        [] \<Rightarrow> None
      | c # r \<Rightarrow>
          if c = CHR ''0'' then Some ([c], r)
          else if digit c then Some (takeWhile digit s, dropWhile digit s)
          else None)"

definition frac_part :: "string \<Rightarrow> (string \<times> string) option" where
  "frac_part s =
     (case s of
        [] \<Rightarrow> Some ([], [])
      | c # r \<Rightarrow>
          if c = CHR ''.'' then
            (if takeWhile digit r = [] then None
             else Some (c # takeWhile digit r, dropWhile digit r))
          else Some ([], s))"

definition exp_digits :: "string \<Rightarrow> string \<Rightarrow> (string \<times> string) option" where
  "exp_digits pre s =
     (if takeWhile digit s = [] then None
      else Some (pre @ takeWhile digit s, dropWhile digit s))"

definition exp_part :: "string \<Rightarrow> (string \<times> string) option" where
  "exp_part s =
     (case s of
        [] \<Rightarrow> Some ([], [])
      | c # r \<Rightarrow>
          if c = CHR ''e'' \<or> c = CHR ''E'' then
            (case r of
               [] \<Rightarrow> None
             | g # r' \<Rightarrow>
                 if g = CHR ''+'' \<or> g = CHR ''-'' then exp_digits [c, g] r'
                 else exp_digits [c] r)
          else Some ([], s))"

definition lex_number :: "string \<Rightarrow> (string \<times> string) option" where
  "lex_number s =
     (let (sg, s0) = (case s of
                        [] \<Rightarrow> ([], [])
                      | c # r \<Rightarrow> if c = CHR ''-'' then ([c], r) else ([], s))
      in case int_part s0 of
           None \<Rightarrow> None
         | Some (ip, s1) \<Rightarrow>
             (case frac_part s1 of
                None \<Rightarrow> None
              | Some (fp, s2) \<Rightarrow>
                  (case exp_part s2 of
                     None \<Rightarrow> None
                   | Some (ep, s3) \<Rightarrow> Some (sg @ ip @ fp @ ep, s3))))"

definition drop_prefix :: "string \<Rightarrow> string \<Rightarrow> string option" where
  "drop_prefix p s = (if take (length p) s = p then Some (drop (length p) s) else None)"

lemma lex_string_length: "lex_string s = Some (u, r) \<Longrightarrow> length r < length s"
proof (induction s arbitrary: u r rule: lex_string.induct)
  case 1
  then show ?case by simp
next
  case (2 c cs)
  then show ?case
    by (fastforce split: if_splits list.splits option.splits)
qed

lemma int_part_length: "int_part s = Some (a, r) \<Longrightarrow> length r < length s"
  by (auto simp: int_part_def split: list.splits if_splits
      intro: le_less_trans [OF length_dropWhile_le])

lemma frac_part_length: "frac_part s = Some (a, r) \<Longrightarrow> length r \<le> length s"
  by (auto simp: frac_part_def split: list.splits if_splits
      intro: le_trans [OF length_dropWhile_le])

lemma exp_part_length: "exp_part s = Some (a, r) \<Longrightarrow> length r \<le> length s"
  by (auto simp: exp_part_def exp_digits_def split: list.splits if_splits
      intro: le_trans [OF length_dropWhile_le])

lemma lex_number_length: "lex_number (c # cs) = Some (l, r) \<Longrightarrow> length r < Suc (length cs)"
proof -
  assume a: "lex_number (c # cs) = Some (l, r)"
  have "\<exists>s0 ip s1 fp s2 ep. length s0 \<le> Suc (length cs) \<and>
    int_part s0 = Some (ip, s1) \<and> frac_part s1 = Some (fp, s2) \<and>
    exp_part s2 = Some (ep, r)"
  proof (cases "c = CHR ''-''")
    case True
    with a obtain ip s1 fp s2 ep where
      "int_part cs = Some (ip, s1)" "frac_part s1 = Some (fp, s2)" "exp_part s2 = Some (ep, r)"
      by (auto simp: lex_number_def split: option.splits)
    moreover have "length cs \<le> Suc (length cs)" by simp
    ultimately show ?thesis by blast
  next
    case False
    with a obtain ip s1 fp s2 ep where
      "int_part (c # cs) = Some (ip, s1)" "frac_part s1 = Some (fp, s2)"
      "exp_part s2 = Some (ep, r)"
      by (auto simp: lex_number_def split: option.splits)
    moreover have "length (c # cs) \<le> Suc (length cs)" by simp
    ultimately show ?thesis by blast
  qed
  then obtain s0 ip s1 fp s2 ep where
    s0: "length s0 \<le> Suc (length cs)" and
    i: "int_part s0 = Some (ip, s1)" and f: "frac_part s1 = Some (fp, s2)" and
    e: "exp_part s2 = Some (ep, r)"
    by blast
  from int_part_length [OF i] frac_part_length [OF f] exp_part_length [OF e] s0
  show ?thesis by linarith
qed

lemma drop_prefix_length: "drop_prefix p s = Some r \<Longrightarrow> length r \<le> length s"
  by (auto simp: drop_prefix_def split: if_splits)

function lex :: "string \<Rightarrow> token list option" where
  "lex [] = Some []"
| "lex (c # cs) =
     (if c = CHR '' '' \<or> c = CHR 0x09 \<or> c = CHR 0x0A \<or> c = CHR 0x0D then lex cs
      else if c = CHR ''{'' then map_option ((#) TLBrace) (lex cs)
      else if c = CHR ''}'' then map_option ((#) TRBrace) (lex cs)
      else if c = CHR ''['' then map_option ((#) TLBrack) (lex cs)
      else if c = CHR '']'' then map_option ((#) TRBrack) (lex cs)
      else if c = CHR '':'' then map_option ((#) TColon) (lex cs)
      else if c = CHR '','' then map_option ((#) TComma) (lex cs)
      else if c = CHR 0x22 then
        (case lex_string cs of
           None \<Rightarrow> None
         | Some (u, r) \<Rightarrow> map_option ((#) (TStr u)) (lex r))
      else if c = CHR ''-'' \<or> digit c then
        (case lex_number (c # cs) of
           None \<Rightarrow> None
         | Some (l, r) \<Rightarrow> map_option ((#) (TNum l)) (lex r))
      else if c = CHR ''t'' then
        (case drop_prefix ''rue'' cs of
           None \<Rightarrow> None
         | Some r \<Rightarrow> map_option ((#) TTrue) (lex r))
      else if c = CHR ''f'' then
        (case drop_prefix ''alse'' cs of
           None \<Rightarrow> None
         | Some r \<Rightarrow> map_option ((#) TFalse) (lex r))
      else if c = CHR ''n'' then
        (case drop_prefix ''ull'' cs of
           None \<Rightarrow> None
         | Some r \<Rightarrow> map_option ((#) TNull) (lex r))
      else None)"
  by pat_completeness auto
termination
proof (relation "measure length", goal_cases)
  case 1
  then show ?case by simp
next
  case (9 c cs x2 u r)
  then show ?case using lex_string_length [of cs u r] by simp
next
  case (10 c cs x2 l r)
  then show ?case using lex_number_length [of c cs l r] by simp
next
  case (11 c cs r)
  then show ?case using drop_prefix_length [of "''rue''" cs r] by simp
next
  case (12 c cs r)
  then show ?case using drop_prefix_length [of "''alse''" cs r] by simp
next
  case (13 c cs r)
  then show ?case using drop_prefix_length [of "''ull''" cs r] by simp
qed simp_all

text \<open>
  The value automaton. A frame is an open array with the elements read so far (latest
  first), or an open object with the members read so far and the name whose value is
  being read. A member name read twice keeps its first position and its last value.
\<close>

datatype frame =
    FArr "json list"
  | FObj "(jsstr \<times> json) list" jsstr

fun pval :: "frame list \<Rightarrow> token list \<Rightarrow> json option"
  and pafter :: "json \<Rightarrow> frame list \<Rightarrow> token list \<Rightarrow> json option" where
  "pval st [] = None"
| "pval st (t # ts) =
     (case t of
        TNull \<Rightarrow> pafter JNull st ts
      | TTrue \<Rightarrow> pafter (JBool True) st ts
      | TFalse \<Rightarrow> pafter (JBool False) st ts
      | TNum l \<Rightarrow> pafter (JNumber l) st ts
      | TStr u \<Rightarrow> pafter (JString u) st ts
      | TLBrack \<Rightarrow>
          (case ts of
             TRBrack # ts' \<Rightarrow> pafter (JArray []) st ts'
           | _ \<Rightarrow> pval (FArr [] # st) ts)
      | TLBrace \<Rightarrow>
          (case ts of
             TRBrace # ts' \<Rightarrow> pafter (JObject []) st ts'
           | TStr k # TColon # ts' \<Rightarrow> pval (FObj [] k # st) ts'
           | _ \<Rightarrow> None)
      | _ \<Rightarrow> None)"
| "pafter v [] ts = (if ts = [] then Some v else None)"
| "pafter v (FArr acc # st) ts =
     (case ts of
        TComma # ts' \<Rightarrow> pval (FArr (v # acc) # st) ts'
      | TRBrack # ts' \<Rightarrow> pafter (JArray (rev (v # acc))) st ts'
      | _ \<Rightarrow> None)"
| "pafter v (FObj acc k # st) ts =
     (case ts of
        TComma # TStr k' # TColon # ts' \<Rightarrow> pval (FObj (acc @ [(k, v)]) k' # st) ts'
      | TRBrace # ts' \<Rightarrow> pafter (JObject (obj_assign [] (acc @ [(k, v)]))) st ts'
      | _ \<Rightarrow> None)"

definition JSON_parse :: "string \<Rightarrow> json option" where
  "JSON_parse s = (case lex s of None \<Rightarrow> None | Some ts \<Rightarrow> pval [] ts)"

section \<open>Truthiness, property reads and spread\<close>

text \<open>
  A number literal is falsy when the double it denotes is zero: its digits are all zero,
  or its value is at most \<open>2\<^sup>-\<^sup>1\<^sup>0\<^sup>7\<^sup>5\<close>, which rounds to zero.
\<close>

definition digits_val :: "string \<Rightarrow> int" where
  "digits_val ds = foldl (\<lambda>n c. 10 * n + (of_char c - 48)) 0 ds"

definition before_exp :: "string \<Rightarrow> string" where
  "before_exp l = takeWhile (\<lambda>c. c \<noteq> CHR ''e'' \<and> c \<noteq> CHR ''E'') l"

definition exponent :: "string \<Rightarrow> int" where
  "exponent l =
     (case dropWhile (\<lambda>c. c \<noteq> CHR ''e'' \<and> c \<noteq> CHR ''E'') l of
        [] \<Rightarrow> 0
      | _ # r \<Rightarrow>
          (case r of
             [] \<Rightarrow> 0
           | g # r' \<Rightarrow>
               if g = CHR ''-'' then - digits_val r'
               else if g = CHR ''+'' then digits_val r'
               else digits_val r))"

definition num_is_zero :: "string \<Rightarrow> bool" where
  "num_is_zero l =
     (let m = digits_val (filter digit (before_exp l));
          f = length (filter digit (dropWhile (\<lambda>c. c \<noteq> CHR ''.'') (before_exp l)));
          e = exponent l - int f
      in m = 0 \<or> (e < 0 \<and> m * 2 ^ 1075 \<le> 10 ^ nat (- e)))"

text \<open>
  The double of a literal is infinite when its magnitude is at least
  \<open>2\<^sup>1\<^sup>0\<^sup>2\<^sup>4 - 2\<^sup>9\<^sup>7\<^sup>0\<close>, half a unit beyond the largest finite double (a tie rounds to even,
  which is upwards there).
\<close>

definition num_is_infinite :: "string \<Rightarrow> bool" where
  "num_is_infinite l =
     (let m = digits_val (filter digit (before_exp l));
          f = length (filter digit (dropWhile (\<lambda>c. c \<noteq> CHR ''.'') (before_exp l)));
          e = exponent l - int f
      in if 0 \<le> e then (2 ^ 54 - 1) * 2 ^ 970 \<le> m * 10 ^ nat e
         else (2 ^ 54 - 1) * 2 ^ 970 * 10 ^ nat (- e) \<le> m)"

text \<open>
  \<open>JSON.parse(JSON.stringify(v))\<close> for a parsed value \<open>v\<close>: an infinite number is written
  as \<open>null\<close> and negative zero as \<open>0\<close>; any other number is written as a text that denotes
  the same double, so its literal is kept. Strings, member names and the structure read
  back as they were.
\<close>

primrec stringify_parse :: "json \<Rightarrow> json" where
  "stringify_parse JNull = JNull"
| "stringify_parse (JBool b) = JBool b"
| "stringify_parse (JNumber l) =
     (if num_is_infinite l then JNull
      else if num_is_zero l \<and> take 1 l = ''-'' then JNumber ''0''
      else JNumber l)"
| "stringify_parse (JString u) = JString u"
| "stringify_parse (JArray xs) = JArray (map stringify_parse xs)"
| "stringify_parse (JObject ms) = JObject (map (map_prod id stringify_parse) ms)"

fun truthy :: "json \<Rightarrow> bool" where
  "truthy JNull = False"
| "truthy (JBool b) = b"
| "truthy (JNumber l) = (\<not> num_is_zero l)"
| "truthy (JString u) = (u \<noteq> [])"
| "truthy (JArray xs) = True"
| "truthy (JObject ms) = True"

text \<open>The result of an expression that may be \<open>undefined\<close> is a \<open>json option\<close>.\<close>

definition truthy_opt :: "json option \<Rightarrow> bool" where
  "truthy_opt x = (case x of None \<Rightarrow> False | Some v \<Rightarrow> truthy v)"

text \<open>\<open>a || b\<close> and \<open>a && b\<close>.\<close>

definition js_or :: "json option \<Rightarrow> json option \<Rightarrow> json option" where
  "js_or a b = (if truthy_opt a then a else b)"

definition js_and :: "json option \<Rightarrow> json option \<Rightarrow> json option" where
  "js_and a b = (if truthy_opt a then b else a)"

text \<open>Decimal numerals, for array indices, lengths and slug suffixes.\<close>

definition digit_char :: "nat \<Rightarrow> char" where
  "digit_char d = char_of (48 + d)"

function show_nat :: "nat \<Rightarrow> string" where
  "show_nat n = (if n < 10 then [digit_char n] else show_nat (n div 10) @ [digit_char (n mod 10)])"
  by pat_completeness auto
termination
  by (relation "measure id") auto

declare show_nat.simps [simp del]

text \<open>A member name that is the canonical numeral of an array index.\<close>

definition read_index :: "jsstr \<Rightarrow> nat option" where
  "read_index k =
     (if k \<noteq> [] \<and> (\<forall>c \<in> set k. 48 \<le> c \<and> c \<le> 57) \<and> (hd k \<noteq> 48 \<or> length k = 1)
      then Some (foldl (\<lambda>n c. 10 * n + (c - 48)) 0 k) else None)"

datatype error =
    TypeError
  | ValidationError string
  | Error string
  | ApiError "string option" string
  | TemplateNotFound jsstr
  | TemplateError string

text \<open>
  The own members that \<open>v[k]\<close> finds on a parsed value: the members of an object, the
  elements and the \<open>length\<close> of an array or a string, nothing on a number or a boolean;
  a TypeError on \<open>null\<close>. The code reads fixed names through it (\<open>hero\<close>, \<open>name\<close>,
  \<open>text\<close>, \<open>projects\<close>, ...), none of which the language defines on a built-in prototype
  (lemma \<open>js_read_fixed\<close>); a read under a name chosen by the caller is \<open>js_read\<close> below.
\<close>

fun js_get :: "json \<Rightarrow> jsstr \<Rightarrow> error + json option" where
  "js_get JNull k = Inl TypeError"
| "js_get (JObject ms) k = Inr (map_of ms k)"
| "js_get (JArray xs) k =
     Inr (case read_index k of
            Some i \<Rightarrow> if i < length xs then Some (xs ! i) else None
          | None \<Rightarrow> if k = js ''length'' then Some (JNumber (show_nat (length xs))) else None)"
| "js_get (JString u) k =
     Inr (case read_index k of
            Some i \<Rightarrow> if i < length u then Some (JString [u ! i]) else None
          | None \<Rightarrow> if k = js ''length'' then Some (JNumber (show_nat (length u))) else None)"
| "js_get v k = Inr None"

text \<open>
  The own enumerable members that an object spread \<open>{...v}\<close> copies: the members of an
  object, the indexed elements of an array or a string, nothing otherwise.
\<close>

fun own_props :: "json \<Rightarrow> (jsstr \<times> json) list" where
  "own_props (JObject ms) = ms"
| "own_props (JArray xs) = zip (map (\<lambda>i. js (show_nat i)) [0..<length xs]) xs"
| "own_props (JString u) =
     zip (map (\<lambda>i. js (show_nat i)) [0..<length u]) (map (\<lambda>c. JString [c]) u)"
| "own_props v = []"

text \<open>
  A read \<open>v[k]\<close> under an arbitrary name also finds what \<open>v\<close> inherits from the built-in
  prototype of its kind and from \<open>Object.prototype\<close>. Every such member with a string
  name is a function, except the accessor \<open>__proto__\<close>, which returns the prototype
  object itself. Which names the prototypes define depends on the version of the
  platform, so the table of method names is a parameter: \<open>methods q k\<close> holds when
  prototype \<open>q\<close> has a method named \<open>k\<close>.
\<close>

datatype proto =
    ObjectPrototype | ArrayPrototype | StringPrototype | NumberPrototype | BooleanPrototype

text \<open>What a property read can yield: a parsed value, a built-in function, a prototype.\<close>

datatype jsval = Json json | BuiltinFunction | BuiltinPrototype proto

fun proto_of :: "json \<Rightarrow> proto option" where
  "proto_of JNull = None"
| "proto_of (JBool b) = Some BooleanPrototype"
| "proto_of (JNumber l) = Some NumberPrototype"
| "proto_of (JString u) = Some StringPrototype"
| "proto_of (JArray xs) = Some ArrayPrototype"
| "proto_of (JObject ms) = Some ObjectPrototype"

definition inherited :: "(proto \<Rightarrow> jsstr \<Rightarrow> bool) \<Rightarrow> proto \<Rightarrow> jsstr \<Rightarrow> jsval option" where
  "inherited methods q k =
     (if k = js ''__proto__'' then Some (BuiltinPrototype q)
      else if methods q k \<or> methods ObjectPrototype k then Some BuiltinFunction
      else None)"

definition js_read :: "(proto \<Rightarrow> jsstr \<Rightarrow> bool) \<Rightarrow> json \<Rightarrow> jsstr \<Rightarrow> error + jsval option" where
  "js_read methods v k =
     (case js_get v k of
        Inl e \<Rightarrow> Inl e
      | Inr own \<Rightarrow>
          (case own of
             Some x \<Rightarrow> Inr (Some (Json x))
           | None \<Rightarrow>
               (case proto_of v of
                  None \<Rightarrow> Inr None
                | Some q \<Rightarrow> Inr (inherited methods q k))))"

fun truthy_val :: "jsval \<Rightarrow> bool" where
  "truthy_val (Json v) = truthy v"
| "truthy_val BuiltinFunction = True"
| "truthy_val (BuiltinPrototype q) = True"

text \<open>
  An object literal while it is built: its members in insertion order. \<open>members v\<close> are
  the members that a spread \<open>...v\<close> copies.
\<close>

type_synonym jsobj = "(jsstr \<times> jsval) list"

definition members :: "json \<Rightarrow> jsobj" where
  "members v = map (map_prod id Json) (own_props v)"

text \<open>
  What \<open>JSON.stringify\<close> writes for a member of an object, read back: a member whose
  value is a function is left out; \<open>Object.prototype\<close> has no enumerable member of its
  own and is written \<open>{}\<close>, \<open>Array.prototype\<close> is an empty array, and the prototypes of
  strings, numbers and booleans are wrapper objects of \<open>""\<close>, \<open>0\<close> and \<open>false\<close>. (No
  value met here has a callable \<open>toJSON\<close>.)
\<close>

fun stored_val :: "jsval \<Rightarrow> json option" where
  "stored_val (Json v) = Some (stringify_parse v)"
| "stored_val BuiltinFunction = None"
| "stored_val (BuiltinPrototype q) =
     Some (case q of
             ObjectPrototype \<Rightarrow> JObject []
           | ArrayPrototype \<Rightarrow> JArray []
           | StringPrototype \<Rightarrow> JString []
           | NumberPrototype \<Rightarrow> JNumber ''0''
           | BooleanPrototype \<Rightarrow> JBool False)"

definition stringify_parse_obj :: "jsobj \<Rightarrow> json" where
  "stringify_parse_obj ms =
     JObject (List.map_filter (\<lambda>m. map_option (Pair (fst m)) (stored_val (snd m))) ms)"

text \<open>The value of top-level key \<open>k\<close> of a document, if it has that key.\<close>

definition key_of :: "json \<Rightarrow> jsstr \<Rightarrow> json option" where
  "key_of doc k = map_of (own_props doc) k"

section \<open>Model Response Parser (aiService)\<close>

text \<open>
  \<open>content.match(/```json\\n([\\s\\S]*?)\\n```/)\<close>: the text between the first
  \<open>```json\<close> line opener and the first closing fence line after it.
\<close>

fun find_after :: "string \<Rightarrow> string \<Rightarrow> string option" where
  "find_after p [] = (if p = [] then Some [] else None)"
| "find_after p (c # cs) =
     (case drop_prefix p (c # cs) of Some r \<Rightarrow> Some r | None \<Rightarrow> find_after p cs)"

fun find_before :: "string \<Rightarrow> string \<Rightarrow> string option" where
  "find_before p [] = (if p = [] then Some [] else None)"
| "find_before p (c # cs) =
     (if prefix p (c # cs) then Some [] else map_option ((#) c) (find_before p cs))"

definition fence_match :: "string \<Rightarrow> string option" where
  "fence_match content =
     (case find_after (''```json'' @ [CHR 0x0A]) content of
        None \<Rightarrow> None
      | Some r \<Rightarrow> find_before (CHR 0x0A # ''```'') r)"

definition fallback_content :: json where
  "fallback_content =
     JObject
       [(js ''hero'', JObject [(js ''name'', JString []), (js ''title'', JString []),
                              (js ''bio'', JString [])]),
        (js ''about'', JObject [(js ''description'', JString []), (js ''skills'', JArray []),
                               (js ''interests'', JArray [])]),
        (js ''projects'', JArray []),
        (js ''contact'', JObject [(js ''email'', JString [])])]"

definition parsePortfolioContent :: "string \<Rightarrow> json" where
  "parsePortfolioContent content =
     (case JSON_parse content of
        Some v \<Rightarrow> v
      | None \<Rightarrow>
          (case fence_match content of
             Some inner \<Rightarrow>
               (case JSON_parse inner of Some v \<Rightarrow> v | None \<Rightarrow> fallback_content)
           | None \<Rightarrow> fallback_content))"

definition parseSectionContent :: "string \<Rightarrow> string \<Rightarrow> json" where
  "parseSectionContent content section =
     (case JSON_parse content of
        Some parsed \<Rightarrow> parsed
      | None \<Rightarrow> JObject [(js section, JString (js content))])"

text \<open>The six top-level keys of the content schema.\<close>

definition schema_keys :: "jsstr list" where
  "schema_keys = map js [''hero'', ''about'', ''projects'', ''experience'', ''education'', ''contact'']"

definition has_schema_keys :: "json \<Rightarrow> bool" where
  "has_schema_keys doc \<longleftrightarrow> (\<forall>k \<in> set schema_keys. key_of doc k \<noteq> None)"

section \<open>The text-generation service (aiService)\<close>

text \<open>
  The OpenAI client is an external collaborator. \<open>openai sv n m\<close> is what the service
  answers to the \<open>n\<close>-th chat completion of a run when asked for model \<open>m\<close>: an error, or
  a response with the contents of its choices and its token count. The prompt texts are
  not modelled (the answer is whatever the service gives), only the cases in which
  building a prompt throws. The world records the models invoked, in order.
  \<open>github sv username token\<close> is the outcome of \<open>getComprehensiveUserData\<close>: its error
  text or its data. \<open>elapsed\<close> is the time a run takes, \<open>number_text\<close> the platform's
  printed form of the double a number literal denotes (\<open>Number::toString\<close>), and
  \<open>builtin_method\<close> the platform's table of the methods of the built-in prototypes.
\<close>

record api_response =
  choices :: "string list"
  total_tokens :: nat

record github_data =
  profile :: json
  repositories :: "json list"
  pinned_repositories :: json
  languages :: "json list"
  stats :: json
  profile_readme :: json

record services =
  openai :: "nat \<Rightarrow> string \<Rightarrow> error + api_response"
  github :: "json option \<Rightarrow> json option \<Rightarrow> string + github_data"
  elapsed :: nat
  number_text :: "string \<Rightarrow> jsstr"
  builtin_method :: "proto \<Rightarrow> jsstr \<Rightarrow> bool"

datatype pstatus = draft | published | archived

record portfolio =
  p_id :: nat
  user_id :: string
  title :: jsstr
  slug :: jsstr
  p_status :: pstatus
  template_id :: jsstr
  content :: json
  generated_html :: "jsstr option"
  generated_css :: "jsstr option"
  generated_js :: "jsstr option"
  view_count :: nat
  is_public :: bool

datatype itype = Generate | Enhance | Fix | Custom

datatype istatus = pending | completed | failed

record iteration =
  it_id :: nat
  portfolio_id :: "nat option"
  prompt :: string
  changes_made :: json
  previous_content :: "json option"
  iteration_type :: itype
  it_status :: istatus
  tokens_used :: nat
  processing_time_ms :: nat
  error_message :: "error option"

text \<open>
  The two tables, the log of model invocations, the number of identifiers handed out so
  far (\<open>uuidv4()\<close> is modelled as a counter: identifiers are unique, nothing else about
  them is used), and the log of every status written to an Iteration row.
\<close>

record world =
  portfolios :: "portfolio list"
  iterations :: "iteration list"
  api_calls :: "string list"
  uuid_next :: nat
  status_writes :: "(nat \<times> istatus) list"

record source =
  stype :: string
  sdata :: "json option"

record ai_result =
  ai_content :: json
  tokensUsed :: nat
  ai_model :: string

definition primary_model :: string where "primary_model = ''gpt-4''"
definition fallback_model :: string where "fallback_model = ''gpt-3.5-turbo''"
definition cheap_model :: string where "cheap_model = ''gpt-3.5-turbo''"

definition error_code :: "error \<Rightarrow> string option" where
  "error_code e = (case e of ApiError c m \<Rightarrow> c | _ \<Rightarrow> None)"

definition chat_create :: "services \<Rightarrow> world \<Rightarrow> string \<Rightarrow> (error + api_response) \<times> world" where
  "chat_create sv w m = (openai sv (length (api_calls w)) m, w\<lparr>api_calls := api_calls w @ [m]\<rparr>)"

text \<open>\<open>response.choices[0].message.content\<close>.\<close>

definition first_choice :: "api_response \<Rightarrow> error + string" where
  "first_choice r = (case choices r of [] \<Rightarrow> Inl TypeError | c # _ \<Rightarrow> Inr c)"

text \<open>
  \<open>_buildPortfolioGenerationPrompt\<close> reads \<open>source.data.text\<close> of a resume source and
  \<open>source.data.description\<close> of a prompt source, which throws when \<open>data\<close> is \<open>null\<close> or
  \<open>undefined\<close>.
\<close>

definition prompt_throws :: "source list \<Rightarrow> bool" where
  "prompt_throws sources \<longleftrightarrow>
     list_ex (\<lambda>s. (stype s = ''resume'' \<or> stype s = ''prompt'') \<and>
                  (sdata s = None \<or> sdata s = Some JNull)) sources"

definition generateWithFallback ::
  "services \<Rightarrow> world \<Rightarrow> source list \<Rightarrow> json \<Rightarrow> (error + ai_result) \<times> world" where
  "generateWithFallback sv w sources preferences =
     (if prompt_throws sources then (Inl TypeError, w)
      else
        (case chat_create sv w fallback_model of
           (Inl e, w') \<Rightarrow> (Inl e, w')
         | (Inr response, w') \<Rightarrow>
             (case first_choice response of
                Inl e \<Rightarrow> (Inl e, w')
              | Inr c \<Rightarrow>
                  (Inr \<lparr>ai_content = parsePortfolioContent c,
                        tokensUsed = total_tokens response,
                        ai_model = fallback_model\<rparr>, w'))))"

text \<open>
  \<open>aiService.generatePortfolio\<close>. Every error of the first attempt reaches the
  \<open>catch\<close>, which retries on the fallback model only for code \<open>model_overloaded\<close>.
\<close>

definition primary_attempt ::
  "services \<Rightarrow> world \<Rightarrow> source list \<Rightarrow> json \<Rightarrow> (error + ai_result) \<times> world" where
  "primary_attempt sv w sources preferences =
     (if prompt_throws sources then (Inl TypeError, w)
      else
        (case chat_create sv w primary_model of
           (Inl e, w') \<Rightarrow> (Inl e, w')
         | (Inr response, w') \<Rightarrow>
             (case first_choice response of
                Inl e \<Rightarrow> (Inl e, w')
              | Inr c \<Rightarrow>
                  (Inr \<lparr>ai_content = parsePortfolioContent c,
                        tokensUsed = total_tokens response,
                        ai_model = primary_model\<rparr>, w'))))"

definition aiService_generatePortfolio ::
  "services \<Rightarrow> world \<Rightarrow> source list \<Rightarrow> json \<Rightarrow> (error + ai_result) \<times> world" where
  "aiService_generatePortfolio sv w sources preferences =
     (case primary_attempt sv w sources preferences of
        (Inr res, w') \<Rightarrow> (Inr res, w')
      | (Inl e, w') \<Rightarrow>
          if error_code e = Some ''model_overloaded''
          then generateWithFallback sv w' sources preferences
          else (Inl e, w'))"

text \<open>
  \<open>aiService.enhanceSection\<close>: the prompt reads \<open>currentContent[section]\<close>; one
  invocation of the cheaper model, no retry.
\<close>

definition enhanceSection ::
  "services \<Rightarrow> world \<Rightarrow> json \<Rightarrow> string \<Rightarrow> string \<Rightarrow> (error + ai_result) \<times> world" where
  "enhanceSection sv w currentContent section prompt' =
     (case js_read (builtin_method sv) currentContent (js section) of
        Inl e \<Rightarrow> (Inl e, w)
      | Inr _ \<Rightarrow>
          (case chat_create sv w cheap_model of
             (Inl e, w') \<Rightarrow> (Inl e, w')
           | (Inr response, w') \<Rightarrow>
               (case first_choice response of
                  Inl e \<Rightarrow> (Inl e, w')
                | Inr c \<Rightarrow>
                    (Inr \<lparr>ai_content = parseSectionContent c section,
                          tokensUsed = total_tokens response,
                          ai_model = cheap_model\<rparr>, w'))))"

definition parseResumeData :: "string \<Rightarrow> json" where
  "parseResumeData c =
     (case JSON_parse c of
        Some v \<Rightarrow> v
      | None \<Rightarrow>
          JObject [(js ''personal'', JObject []), (js ''experience'', JArray []),
                   (js ''education'', JArray []), (js ''skills'', JArray []),
                   (js ''projects'', JArray [])])"

definition parseResumeContent ::
  "services \<Rightarrow> world \<Rightarrow> json \<Rightarrow> (error + json) \<times> world" where
  "parseResumeContent sv w resumeText =
     (case chat_create sv w cheap_model of
        (Inl e, w') \<Rightarrow> (Inl e, w')
      | (Inr response, w') \<Rightarrow>
          (case first_choice response of
             Inl e \<Rightarrow> (Inl e, w')
           | Inr c \<Rightarrow> (Inr (parseResumeData c), w')))"

section \<open>Portfolio model: persistence and slugs\<close>

text \<open>
  \<open>content\<close> is stored as JSON text behind a setter, \<open>JSON.stringify(value || {})\<close>, and a
  getter that parses the text. The model keeps the value that the getter returns after
  the setter has run: \<open>content_set\<close> for a parsed value, \<open>content_set_obj\<close> for an object
  literal (which is truthy).
\<close>

definition content_set :: "json \<Rightarrow> json" where
  "content_set v = stringify_parse (if truthy v then v else JObject [])"

definition content_set_obj :: "jsobj \<Rightarrow> json" where
  "content_set_obj ms = stringify_parse_obj ms"

definition findByPk :: "world \<Rightarrow> nat \<Rightarrow> portfolio option" where
  "findByPk w i = find (\<lambda>p. p_id p = i) (portfolios w)"

definition findByUserAndSlug :: "world \<Rightarrow> string \<Rightarrow> jsstr \<Rightarrow> portfolio option" where
  "findByUserAndSlug w userId s = find (\<lambda>p. user_id p = userId \<and> slug p = s) (portfolios w)"

text \<open>\<open>instance.save()\<close>: the row with the instance's identifier is replaced.\<close>

definition save_portfolio :: "world \<Rightarrow> portfolio \<Rightarrow> world" where
  "save_portfolio w p =
     w\<lparr>portfolios := map (\<lambda>q. if p_id q = p_id p then p else q) (portfolios w)\<rparr>"

text \<open>
  \<open>toLowerCase\<close> on code units. It is exact on the Latin-1 range. Above it, the two code
  points whose lower case contains an ASCII letter (U+0130, U+212A) are mapped; any other
  code unit above FF is left as it is: its lower-case form is again above 7F and is not
  white space, so the \<open>replace\<close> that follows in \<open>generateSlug\<close> removes it either way.
\<close>

definition lower_unit :: "nat \<Rightarrow> jsstr" where
  "lower_unit u =
     (if 65 \<le> u \<and> u \<le> 90 then [u + 32]
      else if 192 \<le> u \<and> u \<le> 222 \<and> u \<noteq> 215 then [u + 32]
      else if u = 0x130 then [0x69, 0x307]
      else if u = 0x212A then [0x6B]
      else [u])"

definition toLowerCase :: "jsstr \<Rightarrow> jsstr" where
  "toLowerCase u = concat (map lower_unit u)"

text \<open>The classes \<open>[a-zA-Z0-9]\<close> and \<open>\\s\<close> of a JavaScript regular expression.\<close>

definition is_alnum :: "nat \<Rightarrow> bool" where
  "is_alnum u \<longleftrightarrow> (48 \<le> u \<and> u \<le> 57) \<or> (65 \<le> u \<and> u \<le> 90) \<or> (97 \<le> u \<and> u \<le> 122)"

definition is_space :: "nat \<Rightarrow> bool" where
  "is_space u \<longleftrightarrow>
     (9 \<le> u \<and> u \<le> 13) \<or> u = 32 \<or> u = 0xA0 \<or> u = 0x1680 \<or> (0x2000 \<le> u \<and> u \<le> 0x200A) \<or>
     u = 0x2028 \<or> u = 0x2029 \<or> u = 0x202F \<or> u = 0x205F \<or> u = 0x3000 \<or> u = 0xFEFF"

text \<open>\<open>.replace(/\\s+/g, '-')\<close>: the flag tells whether the previous unit was white space.\<close>

fun hyphenate :: "bool \<Rightarrow> jsstr \<Rightarrow> jsstr" where
  "hyphenate in_run [] = []"
| "hyphenate in_run (u # us) =
     (if is_space u then (if in_run then hyphenate True us else 45 # hyphenate True us)
      else u # hyphenate False us)"

definition base_slug :: "jsstr \<Rightarrow> jsstr" where
  "base_slug t =
     take 50 (hyphenate False (filter (\<lambda>u. is_alnum u \<or> is_space u) (toLowerCase t)))"

text \<open>The candidate \<open>`${baseSlug}-${counter}`\<close>.\<close>

definition candidate :: "jsstr \<Rightarrow> nat \<Rightarrow> jsstr" where
  "candidate b n = b @ 45 # js (show_nat n)"

lemma of_char_digit_char: "d < 10 \<Longrightarrow> of_char (digit_char d) = 48 + d"
  by (simp add: digit_char_def)

definition units_val :: "jsstr \<Rightarrow> nat" where
  "units_val k = foldl (\<lambda>n c. 10 * n + (c - 48)) 0 k"

lemma units_val_show_nat: "units_val (js (show_nat n)) = n"
proof (induction n rule: show_nat.induct)
  case (1 n)
  show ?case
  proof (cases "n < 10")
    case True
    then show ?thesis
      by (subst show_nat.simps) (simp add: units_val_def js_def of_char_digit_char)
  next
    case False
    have m: "n mod 10 < 10" by simp
    from False 1 have ih: "units_val (js (show_nat (n div 10))) = n div 10" by simp
    have "units_val (js (show_nat n)) =
        10 * units_val (js (show_nat (n div 10))) + n mod 10"
      using False
      by (subst show_nat.simps) (simp add: units_val_def js_def of_char_digit_char [OF m])
    with ih show ?thesis by simp
  qed
qed

lemma show_nat_inj: "show_nat m = show_nat n \<Longrightarrow> m = n"
proof -
  assume eq: "show_nat m = show_nat n"
  have "units_val (js (show_nat m)) = units_val (js (show_nat n))" by (simp only: eq)
  then show ?thesis by (simp only: units_val_show_nat)
qed

lemma candidate_inj: "candidate b m = candidate b n \<Longrightarrow> m = n"
proof -
  assume "candidate b m = candidate b n"
  then have "js (show_nat m) = js (show_nat n)" by (simp add: candidate_def)
  then have "units_val (js (show_nat m)) = units_val (js (show_nat n))" by simp
  then show ?thesis by (simp add: units_val_show_nat)
qed

text \<open>The slugs of the owner that are candidates numbered from \<open>n\<close> on.\<close>

definition taken_from :: "world \<Rightarrow> string \<Rightarrow> jsstr \<Rightarrow> nat \<Rightarrow> nat set" where
  "taken_from w userId b n = {k. n \<le> k \<and> findByUserAndSlug w userId (candidate b k) \<noteq> None}"

lemma find_Some_in_set: "find P xs \<noteq> None \<longleftrightarrow> (\<exists>x \<in> set xs. P x)"
  by (auto simp: find_None_iff)

lemma finite_taken_from: "finite (taken_from w userId b n)"
proof -
  have "taken_from w userId b n \<subseteq> (candidate b) -` (slug ` set (portfolios w))"
  proof
    fix k
    assume "k \<in> taken_from w userId b n"
    then have "find (\<lambda>p. user_id p = userId \<and> slug p = candidate b k) (portfolios w) \<noteq> None"
      by (simp add: taken_from_def findByUserAndSlug_def)
    then obtain p where "p \<in> set (portfolios w)" "slug p = candidate b k"
      unfolding find_Some_in_set by blast
    then show "k \<in> (candidate b) -` (slug ` set (portfolios w))"
      by (auto intro: image_eqI [where x = p])
  qed
  moreover have "finite ((candidate b) -` (slug ` set (portfolios w)))"
    by (rule finite_vimageI) (auto simp: inj_on_def dest: candidate_inj)
  ultimately show ?thesis by (rule finite_subset)
qed

lemma taken_from_step:
  "taken_from w userId b n =
     (if findByUserAndSlug w userId (candidate b n) \<noteq> None
      then insert n (taken_from w userId b (Suc n)) else taken_from w userId b (Suc n))"
  by (auto simp: taken_from_def Suc_le_eq le_less)

text \<open>
  The \<open>while\<close> loop of \<open>generateSlug\<close>. It ends because the owner has finitely many
  portfolios and the candidates are pairwise different.
\<close>

function slug_loop :: "world \<Rightarrow> string \<Rightarrow> jsstr \<Rightarrow> jsstr \<Rightarrow> nat \<Rightarrow> jsstr" where
  "slug_loop w userId baseSlug s counter =
     (if findByUserAndSlug w userId s \<noteq> None
      then slug_loop w userId baseSlug (candidate baseSlug counter) (Suc counter)
      else s)"
  by pat_completeness auto
termination
proof (relation "measure (\<lambda>(w, userId, b, s, n).
    2 * card (taken_from w userId b n) + (if findByUserAndSlug w userId s \<noteq> None then 1 else 0))",
    goal_cases)
  case 1
  then show ?case by simp
next
  case (2 w userId b s n)
  have fin: "finite (taken_from w userId b (Suc n))" by (rule finite_taken_from)
  have nin: "n \<notin> taken_from w userId b (Suc n)" by (simp add: taken_from_def)
  have step: "taken_from w userId b n =
     (if findByUserAndSlug w userId (candidate b n) \<noteq> None
      then insert n (taken_from w userId b (Suc n)) else taken_from w userId b (Suc n))"
    by (rule taken_from_step)
  show ?case
  proof (cases "findByUserAndSlug w userId (candidate b n) \<noteq> None")
    case True
    with step have "card (taken_from w userId b n) = Suc (card (taken_from w userId b (Suc n)))"
      using fin nin by simp
    with 2 True show ?thesis by simp
  next
    case False
    with step have "taken_from w userId b n = taken_from w userId b (Suc n)" by simp
    with 2 False show ?thesis by simp
  qed
qed

declare slug_loop.simps [simp del]

definition generateSlug :: "world \<Rightarrow> string \<Rightarrow> jsstr \<Rightarrow> jsstr" where
  "generateSlug w userId t = slug_loop w userId (base_slug t) (base_slug t) 1"

text \<open>
  \<open>Portfolio.create\<close> with the model's validators (\<open>len: [1, 255]\<close> on title and slug,
  counted here in code units; \<open>is: /^[a-zA-Z0-9_-]+$/\<close> on the slug) and the unique index
  on (user_id, slug). Generated files start empty, counters at their defaults.
\<close>

definition slug_format :: "jsstr \<Rightarrow> bool" where
  "slug_format s \<longleftrightarrow> s \<noteq> [] \<and> (\<forall>u \<in> set s. is_alnum u \<or> u = 95 \<or> u = 45)"

definition Portfolio_create ::
  "world \<Rightarrow> string \<Rightarrow> jsstr \<Rightarrow> jsstr \<Rightarrow> jsstr \<Rightarrow> json \<Rightarrow> (error + portfolio) \<times> world" where
  "Portfolio_create w userId t s tmpl c =
     (if \<not> (1 \<le> length t \<and> length t \<le> 255) then (Inl (ValidationError ''title''), w)
      else if \<not> (1 \<le> length s \<and> length s \<le> 255 \<and> slug_format s)
        then (Inl (ValidationError ''slug''), w)
      else if findByUserAndSlug w userId s \<noteq> None then (Inl (ValidationError ''unique''), w)
      else
        (let p = \<lparr>p_id = uuid_next w, user_id = userId, title = t, slug = s,
                  p_status = draft, template_id = tmpl, content = content_set c,
                  generated_html = None, generated_css = None, generated_js = None,
                  view_count = 0, is_public = False\<rparr>
         in (Inr p, w\<lparr>portfolios := portfolios w @ [p], uuid_next := Suc (uuid_next w)\<rparr>)))"

definition getDefaultContent :: json where
  "getDefaultContent =
     JObject
       [(js ''hero'', JObject [(js ''name'', JString []), (js ''title'', JString []),
                              (js ''bio'', JString []), (js ''image'', JString []),
                              (js ''social_links'',
                               JObject [(js ''github'', JString []), (js ''linkedin'', JString []),
                                        (js ''email'', JString [])])]),
        (js ''about'', JObject [(js ''description'', JString []), (js ''skills'', JArray []),
                               (js ''interests'', JArray [])]),
        (js ''projects'', JArray []),
        (js ''experience'', JArray []),
        (js ''education'', JArray []),
        (js ''contact'', JObject [(js ''email'', JString []), (js ''phone'', JString []),
                                 (js ''location'', JString []),
                                 (js ''social_links'', JObject [])])]"

text \<open>
  The handler of \<open>POST /api/portfolios\<close> for an owner and a title (no template, no
  content in the request): a slug is generated, then the portfolio is created.
\<close>

definition createPortfolio :: "world \<Rightarrow> string \<Rightarrow> jsstr \<Rightarrow> (error + portfolio) \<times> world" where
  "createPortfolio w userId t =
     Portfolio_create w userId t (generateSlug w userId t) (js ''modern-dev'') getDefaultContent"

text \<open>
  \<open>Portfolio.prototype.updateContent\<close>, called with an object literal:
  \<open>this.content = { ...this.content, ...newContent }\<close>, then \<open>save\<close>. And
  \<open>setGeneratedFiles\<close>.
\<close>

definition updateContent :: "world \<Rightarrow> portfolio \<Rightarrow> jsobj \<Rightarrow> portfolio \<times> world" where
  "updateContent w p newContent =
     (let p' = p\<lparr>content :=
                   content_set_obj (obj_assign (obj_assign [] (members (content p))) newContent)\<rparr>
      in (p', save_portfolio w p'))"

definition setGeneratedFiles ::
  "world \<Rightarrow> portfolio \<Rightarrow> jsstr \<Rightarrow> jsstr \<Rightarrow> jsstr \<Rightarrow> portfolio \<times> world" where
  "setGeneratedFiles w p html css js' =
     (let p' = p\<lparr>generated_html := Some html,
                 generated_css := (if css \<noteq> [] then Some css else generated_css p),
                 generated_js := (if js' \<noteq> [] then Some js' else generated_js p)\<rparr>
      in (p', save_portfolio w p'))"

section \<open>Source Normalizer (portfolioGenerator)\<close>

text \<open>\<open>x.k\<close> where \<open>x\<close> may be \<open>undefined\<close>, and \<open>x?.k\<close>.\<close>

definition get_member :: "json option \<Rightarrow> jsstr \<Rightarrow> error + json option" where
  "get_member x k = (case x of None \<Rightarrow> Inl TypeError | Some v \<Rightarrow> js_get v k)"

definition opt_get :: "json option \<Rightarrow> jsstr \<Rightarrow> json option" where
  "opt_get x k =
     (case x of
        None \<Rightarrow> None
      | Some v \<Rightarrow> (case js_get v k of Inl e \<Rightarrow> None | Inr r \<Rightarrow> r))"

text \<open>\<open>a || b\<close> where \<open>b\<close> is defined.\<close>

definition or_else :: "json option \<Rightarrow> json \<Rightarrow> json" where
  "or_else a b = (case a of None \<Rightarrow> b | Some v \<Rightarrow> if truthy v then v else b)"

definition processGitHubSource :: "services \<Rightarrow> world \<Rightarrow> source \<Rightarrow> (error + source) \<times> world" where
  "processGitHubSource sv w s =
     (case get_member (sdata s) (js ''username'') of
        Inl e \<Rightarrow> (Inl e, w)
      | Inr username \<Rightarrow>
          (case github sv username (opt_get (sdata s) (js ''access_token'')) of
             Inl msg \<Rightarrow> (Inl (Error (''Failed to fetch GitHub data: '' @ msg)), w)
           | Inr d \<Rightarrow>
               (Inr \<lparr>stype = ''github'',
                     sdata = Some (JObject
                       [(js ''profile'', profile d),
                        (js ''top_repositories'', JArray (take 6 (repositories d))),
                        (js ''pinned_repositories'', pinned_repositories d),
                        (js ''languages'', JArray (take 8 (languages d))),
                        (js ''stats'', stats d),
                        (js ''profile_readme'', profile_readme d)])\<rparr>, w)))"

definition processResumeSource :: "services \<Rightarrow> world \<Rightarrow> source \<Rightarrow> (error + source) \<times> world" where
  "processResumeSource sv w s =
     (case get_member (sdata s) (js ''text'') of
        Inl e \<Rightarrow> (Inl e, w)
      | Inr t \<Rightarrow>
          (case js_or t (opt_get (sdata s) (js ''content'')) of
             None \<Rightarrow> (Inl (Error ''No resume text provided''), w)
           | Some resumeText \<Rightarrow>
               if \<not> truthy resumeText then (Inl (Error ''No resume text provided''), w)
               else
                 (case parseResumeContent sv w resumeText of
                    (Inl e, w') \<Rightarrow> (Inl e, w')
                  | (Inr d, w') \<Rightarrow> (Inr \<lparr>stype = ''resume'', sdata = Some d\<rparr>, w'))))"

text \<open>A member whose value is \<open>undefined\<close> is left out of the object.\<close>

definition processPromptSource :: "services \<Rightarrow> world \<Rightarrow> source \<Rightarrow> (error + source) \<times> world" where
  "processPromptSource sv w s =
     (case get_member (sdata s) (js ''description'') of
        Inl e \<Rightarrow> (Inl e, w)
      | Inr d \<Rightarrow>
          (Inr \<lparr>stype = ''prompt'',
                sdata = Some (JObject
                  ((case js_or d (opt_get (sdata s) (js ''prompt'')) of
                      None \<Rightarrow> []
                    | Some v \<Rightarrow> [(js ''description'', v)]) @
                   [(js ''preferences'',
                     or_else (opt_get (sdata s) (js ''preferences'')) (JObject []))]))\<rparr>, w))"

definition processLinkedInSource :: "services \<Rightarrow> world \<Rightarrow> source \<Rightarrow> (error + source) \<times> world" where
  "processLinkedInSource sv w s = (Inr \<lparr>stype = ''linkedin'', sdata = sdata s\<rparr>, w)"

text \<open>
  The body of the \<open>try\<close> in the loop of \<open>_processSources\<close>: the \<open>switch\<close> on the type, with
  \<open>{type, data}\<close> of the source itself as the value that the \<open>default\<close> branch (which only
  logs a warning) leaves in place.
\<close>

definition process_source :: "services \<Rightarrow> world \<Rightarrow> source \<Rightarrow> (error + source) \<times> world" where
  "process_source sv w s =
     (if stype s = ''github'' then processGitHubSource sv w s
      else if stype s = ''resume'' then processResumeSource sv w s
      else if stype s = ''prompt'' then processPromptSource sv w s
      else if stype s = ''linkedin'' then processLinkedInSource sv w s
      else (Inr \<lparr>stype = stype s, sdata = sdata s\<rparr>, w))"

text \<open>The loop: a processed source is pushed; a source whose processing throws is dropped.\<close>

fun processSources :: "services \<Rightarrow> world \<Rightarrow> source list \<Rightarrow> source list \<times> world" where
  "processSources sv w [] = ([], w)"
| "processSources sv w (s # rest) =
     (case process_source sv w s of
        (Inl e, w') \<Rightarrow> processSources sv w' rest
      | (Inr ps, w') \<Rightarrow>
          (case processSources sv w' rest of (out, w'') \<Rightarrow> (ps # out, w'')))"

section \<open>Iteration records (PortfolioIteration)\<close>

text \<open>
  \<open>PortfolioIteration.create\<close>: the column \<open>portfolio_id\<close> is declared
  \<open>allowNull: false\<close>, so a record without one is rejected by validation. A record that
  is created is written with the status given.
\<close>

definition PortfolioIteration_create ::
  "world \<Rightarrow> nat option \<Rightarrow> string \<Rightarrow> itype \<Rightarrow> istatus \<Rightarrow> json option \<Rightarrow> (error + iteration) \<times> world" where
  "PortfolioIteration_create w pid pr ty st prev =
     (case pid of
        None \<Rightarrow>
          (Inl (ValidationError ''notNull Violation: PortfolioIteration.portfolio_id cannot be null''), w)
      | Some i \<Rightarrow>
          (let it = \<lparr>it_id = uuid_next w, portfolio_id = Some i, prompt = pr,
                     changes_made = JObject [], previous_content = map_option content_set prev,
                     iteration_type = ty, it_status = st, tokens_used = 0,
                     processing_time_ms = 0, error_message = None\<rparr>
           in (Inr it, w\<lparr>iterations := iterations w @ [it], uuid_next := Suc (uuid_next w),
                         status_writes := status_writes w @ [(it_id it, st)]\<rparr>)))"

definition save_iteration :: "world \<Rightarrow> iteration \<Rightarrow> world" where
  "save_iteration w it =
     w\<lparr>iterations := map (\<lambda>r. if it_id r = it_id it then it else r) (iterations w),
       status_writes := status_writes w @ [(it_id it, it_status it)]\<rparr>"

definition markCompleted :: "world \<Rightarrow> iteration \<Rightarrow> json \<Rightarrow> nat \<Rightarrow> nat \<Rightarrow> iteration \<times> world" where
  "markCompleted w it changesMade tokens time =
     (let it' = it\<lparr>it_status := completed, changes_made := content_set changesMade,
                   tokens_used := tokens, processing_time_ms := time\<rparr>
      in (it', save_iteration w it'))"

definition markFailed :: "world \<Rightarrow> iteration \<Rightarrow> error \<Rightarrow> iteration \<times> world" where
  "markFailed w it e =
     (let it' = it\<lparr>it_status := failed, error_message := Some e\<rparr>
      in (it', save_iteration w it'))"

section \<open>Generation Orchestrator (portfolioGenerator)\<close>

text \<open>\<open>`${x}`\<close> for a parsed value.\<close>

fun join_comma :: "jsstr list \<Rightarrow> jsstr" where
  "join_comma [] = []"
| "join_comma [x] = x"
| "join_comma (x # y # zs) = x @ 44 # join_comma (y # zs)"

fun to_string :: "(string \<Rightarrow> jsstr) \<Rightarrow> json \<Rightarrow> jsstr" where
  "to_string nt JNull = js ''null''"
| "to_string nt (JBool b) = (if b then js ''true'' else js ''false'')"
| "to_string nt (JNumber l) = nt l"
| "to_string nt (JString u) = u"
| "to_string nt (JArray xs) =
     join_comma (map (\<lambda>x. case x of JNull \<Rightarrow> [] | _ \<Rightarrow> to_string nt x) xs)"
| "to_string nt (JObject ms) = js ''[object Object]''"

definition generatePortfolioTitle :: "services \<Rightarrow> json \<Rightarrow> error + jsstr" where
  "generatePortfolioTitle sv c =
     (case js_get c (js ''hero'') of
        Inl e \<Rightarrow> Inl e
      | Inr hero \<Rightarrow>
          (let name = or_else (opt_get hero (js ''name'')) (JString (js ''Portfolio''));
               t = or_else (opt_get hero (js ''title'')) (JString [])
           in if truthy t
              then Inr (to_string (number_text sv) name @ js '' - '' @ to_string (number_text sv) t)
              else Inr (to_string (number_text sv) name @ 39 # js ''s Portfolio'')))"

definition defaultTemplate :: jsstr where
  "defaultTemplate = js ''modern-dev''"

record generation_success =
  g_portfolio :: portfolio
  sources_processed :: nat
  g_tokens_used :: nat
  g_processing_time_ms :: nat
  g_ai_model :: string

fun intercalate :: "string \<Rightarrow> string list \<Rightarrow> string" where
  "intercalate sep [] = []"
| "intercalate sep [x] = x"
| "intercalate sep (x # y # zs) = x @ sep @ intercalate sep (y # zs)"

text \<open>
  The statements of \<open>generatePortfolio\<close> that follow the creation of the Iteration record,
  up to the \<open>markCompleted\<close> call: an error is what the \<open>catch\<close> receives.
  \<open>preferences.template_id\<close> is taken apart from the other preferences, as a string
  or absent.
\<close>

definition generate_steps ::
  "services \<Rightarrow> world \<Rightarrow> iteration \<Rightarrow> string \<Rightarrow> source list \<Rightarrow> jsstr option \<Rightarrow> json \<Rightarrow>
     (error + generation_success) \<times> world" where
  "generate_steps sv w it userId sources pref_template preferences =
     (case processSources sv w sources of
        (processed, w1) \<Rightarrow>
          (case aiService_generatePortfolio sv w1 processed preferences of
             (Inl e, w2) \<Rightarrow> (Inl e, w2)
           | (Inr ai, w2) \<Rightarrow>
               (case generatePortfolioTitle sv (ai_content ai) of
                  Inl e \<Rightarrow> (Inl e, w2)
                | Inr t \<Rightarrow>
                    (case Portfolio_create w2 userId t (generateSlug w2 userId t)
                            (case pref_template of
                               None \<Rightarrow> defaultTemplate
                             | Some tm \<Rightarrow> if tm \<noteq> [] then tm else defaultTemplate)
                            (ai_content ai) of
                       (Inl e, w3) \<Rightarrow> (Inl e, w3)
                     | (Inr p, w3) \<Rightarrow>
                         (case markCompleted w3 (it\<lparr>portfolio_id := Some (p_id p)\<rparr>)
                                 (JObject [(js ''generated'', JBool True),
                                           (js ''sources'',
                                            JArray (map (\<lambda>s. JString (js (stype s))) sources))])
                                 (tokensUsed ai) (elapsed sv) of
                            (it', w4) \<Rightarrow>
                              (Inr \<lparr>g_portfolio = p, sources_processed = length processed,
                                    g_tokens_used = tokensUsed ai,
                                    g_processing_time_ms = elapsed sv,
                                    g_ai_model = ai_model ai\<rparr>, w4))))))"

text \<open>
  \<open>generatePortfolio\<close>: the Iteration record is created first, with \<open>portfolio_id: null\<close>.
  When the creation throws, \<open>iteration\<close> is still \<open>null\<close> in the \<open>catch\<close> and nothing is
  marked; when a later step throws, the record is marked failed.
\<close>

definition generatePortfolio ::
  "services \<Rightarrow> world \<Rightarrow> string \<Rightarrow> source list \<Rightarrow> jsstr option \<Rightarrow> json \<Rightarrow>
     (error + generation_success) \<times> world" where
  "generatePortfolio sv w userId sources pref_template preferences =
     (case PortfolioIteration_create w None
             (''Generate portfolio from sources: '' @ intercalate '', '' (map stype sources))
             Generate pending None of
        (Inl e, w0) \<Rightarrow> (Inl e, w0)
      | (Inr it, w0) \<Rightarrow>
          (case generate_steps sv w0 it userId sources pref_template preferences of
             (Inl e, w1) \<Rightarrow> (Inl e, snd (markFailed w1 it e))
           | (Inr res, w1) \<Rightarrow> (Inr res, w1)))"

record enhancement_success =
  e_portfolio :: portfolio
  e_section :: string
  e_prompt :: string
  e_tokens_used :: nat
  e_processing_time_ms :: nat

text \<open>The source that an enhancement of the whole portfolio makes of the user's prompt.\<close>

definition enhancement_source :: "string \<Rightarrow> source" where
  "enhancement_source pr =
     \<lparr>stype = ''prompt'', sdata = Some (JObject [(js ''description'', JString (js pr))])\<rparr>"

text \<open>\<open>aiResult.content[section] || aiResult.content\<close>.\<close>

definition section_value :: "services \<Rightarrow> json \<Rightarrow> string \<Rightarrow> error + jsval" where
  "section_value sv c sec =
     (case js_read (builtin_method sv) c (js sec) of
        Inl e \<Rightarrow> Inl e
      | Inr r \<Rightarrow>
          Inr (case r of
                 None \<Rightarrow> Json c
               | Some x \<Rightarrow> if truthy_val x then x else Json c))"

text \<open>
  The statements of \<open>enhancePortfolio\<close> between the creation of the Iteration record and
  the \<open>markCompleted\<close> call: the enhanced portfolio and the tokens used, or the error that
  the \<open>catch\<close> receives. \<open>if (section)\<close> holds for a non-empty section name.
\<close>

definition enhance_steps ::
  "services \<Rightarrow> world \<Rightarrow> portfolio \<Rightarrow> string \<Rightarrow> string option \<Rightarrow>
     (error + portfolio \<times> nat) \<times> world" where
  "enhance_steps sv w p pr section =
     (case section of
        Some sec \<Rightarrow>
          if sec \<noteq> [] then
            (case enhanceSection sv w (content p) sec pr of
               (Inl e, w1) \<Rightarrow> (Inl e, w1)
             | (Inr ai, w1) \<Rightarrow>
                 (case section_value sv (ai_content ai) sec of
                    Inl e \<Rightarrow> (Inl e, w1)
                  | Inr x \<Rightarrow>
                      (case updateContent w1 p
                              (obj_put (js sec) x (obj_assign [] (members (content p)))) of
                         (p', w2) \<Rightarrow> (Inr (p', tokensUsed ai), w2))))
          else
            (case aiService_generatePortfolio sv w
                    [enhancement_source pr]
                    (JObject [(js ''existing_content'', content p)]) of
               (Inl e, w1) \<Rightarrow> (Inl e, w1)
             | (Inr ai, w1) \<Rightarrow>
                 (case updateContent w1 p
                         (obj_assign (obj_assign [] (members (content p)))
                            (members (ai_content ai))) of
                    (p', w2) \<Rightarrow> (Inr (p', tokensUsed ai), w2)))
      | None \<Rightarrow>
          (case aiService_generatePortfolio sv w
                  [enhancement_source pr]
                  (JObject [(js ''existing_content'', content p)]) of
             (Inl e, w1) \<Rightarrow> (Inl e, w1)
           | (Inr ai, w1) \<Rightarrow>
               (case updateContent w1 p
                         (obj_assign (obj_assign [] (members (content p)))
                            (members (ai_content ai))) of
                  (p', w2) \<Rightarrow> (Inr (p', tokensUsed ai), w2))))"

definition section_label :: "string option \<Rightarrow> string" where
  "section_label section =
     (case section of
        None \<Rightarrow> ''entire_portfolio''
      | Some sec \<Rightarrow> if sec \<noteq> [] then sec else ''entire_portfolio'')"

definition enhancePortfolio ::
  "services \<Rightarrow> world \<Rightarrow> nat \<Rightarrow> string \<Rightarrow> string option \<Rightarrow>
     (error + enhancement_success) \<times> world" where
  "enhancePortfolio sv w portfolioId pr section =
     (case findByPk w portfolioId of
        None \<Rightarrow> (Inl (Error ''Portfolio not found''), w)
      | Some p \<Rightarrow>
          (case PortfolioIteration_create w (Some portfolioId) pr Enhance pending
                  (Some (content p)) of
             (Inl e, w0) \<Rightarrow> (Inl e, w0)
           | (Inr it, w0) \<Rightarrow>
               (case enhance_steps sv w0 p pr section of
                  (Inl e, w1) \<Rightarrow> (Inl e, snd (markFailed w1 it e))
                | (Inr (p', tokens), w1) \<Rightarrow>
                    (case markCompleted w1 it
                            (JObject [(js ''enhanced'', JBool True),
                                      (js ''section'', JString (js (section_label section)))])
                            tokens (elapsed sv) of
                       (it', w2) \<Rightarrow>
                         (Inr \<lparr>e_portfolio = p', e_section = section_label section,
                               e_prompt = pr, e_tokens_used = tokens,
                               e_processing_time_ms = elapsed sv\<rparr>, w2)))))"

text \<open>A value none of whose top-level member names occurs twice.\<close>

definition top_distinct :: "json \<Rightarrow> bool" where
  "top_distinct v \<longleftrightarrow> distinct (map fst (own_props v))"

section \<open>Creating several portfolios under one title\<close>

text \<open>
  The slug with number \<open>i\<close> of a base slug: the base slug itself, then \<open>base-1\<close>,
  \<open>base-2\<close>, and so on. \<open>create_many\<close> runs the creation handler \<open>n\<close> times in a row for
  one owner and one title and collects the slugs of the portfolios created.
  \<open>slug_unit\<close> is the alphabet \<open>[a-z0-9-]\<close>.
\<close>

definition slug_name :: "jsstr \<Rightarrow> nat \<Rightarrow> jsstr" where
  "slug_name b i = (if i = 0 then b else candidate b i)"

fun create_many :: "world \<Rightarrow> string \<Rightarrow> jsstr \<Rightarrow> nat \<Rightarrow> jsstr list \<times> world" where
  "create_many w userId t 0 = ([], w)"
| "create_many w userId t (Suc n) =
     (case createPortfolio w userId t of
        (Inl e, w') \<Rightarrow> create_many w' userId t n
      | (Inr p, w') \<Rightarrow>
          (case create_many w' userId t n of (ss, w'') \<Rightarrow> (slug p # ss, w'')))"

definition slug_unit :: "nat \<Rightarrow> bool" where
  "slug_unit u \<longleftrightarrow> (48 \<le> u \<and> u \<le> 57) \<or> (97 \<le> u \<and> u \<le> 122) \<or> u = 45"

section \<open>Template Renderer (templateEngine)\<close>

text \<open>
  \<open>v > 0\<close> for a parsed value \<open>v\<close>: the value is converted to a number first. A string
  is trimmed and read as a numeric literal (decimal, \<open>Infinity\<close>, or with a radix prefix);
  an array is converted through its joined text, so only an array of one element can
  denote a number.
\<close>

definition trim_ws :: "jsstr \<Rightarrow> jsstr" where
  "trim_ws u = rev (dropWhile is_space (rev (dropWhile is_space u)))"

definition is_dec :: "nat \<Rightarrow> bool" where
  "is_dec c \<longleftrightarrow> 48 \<le> c \<and> c \<le> 57"

definition exp_ok :: "jsstr \<Rightarrow> bool" where
  "exp_ok r =
     (case r of
        [] \<Rightarrow> True
      | c # r1 \<Rightarrow>
          (c = 101 \<or> c = 69) \<and>
          (case r1 of
             [] \<Rightarrow> False
           | g # r2 \<Rightarrow>
               if g = 43 \<or> g = 45 then r2 \<noteq> [] \<and> list_all is_dec r2
               else list_all is_dec r1))"

definition dec_literal :: "jsstr \<Rightarrow> bool" where
  "dec_literal b =
     (let ip = takeWhile is_dec b; r1 = dropWhile is_dec b
      in case r1 of
           [] \<Rightarrow> ip \<noteq> []
         | c # r \<Rightarrow>
             if c = 46
             then (ip \<noteq> [] \<or> takeWhile is_dec r \<noteq> []) \<and> exp_ok (dropWhile is_dec r)
             else ip \<noteq> [] \<and> exp_ok r1)"

definition radix_gt_zero :: "jsstr \<Rightarrow> (nat \<Rightarrow> bool) \<Rightarrow> bool" where
  "radix_gt_zero d ok \<longleftrightarrow> d \<noteq> [] \<and> list_all ok d \<and> list_ex (\<lambda>c. c \<noteq> 48) d"

definition str_gt_zero :: "jsstr \<Rightarrow> bool" where
  "str_gt_zero u =
     (let t = trim_ws u
      in if t = [] then False
         else if t = js ''Infinity'' \<or> t = js ''+Infinity'' then True
         else if take 2 t = js ''0x'' \<or> take 2 t = js ''0X''
           then radix_gt_zero (drop 2 t)
                  (\<lambda>c. is_dec c \<or> (97 \<le> c \<and> c \<le> 102) \<or> (65 \<le> c \<and> c \<le> 70))
         else if take 2 t = js ''0o'' \<or> take 2 t = js ''0O''
           then radix_gt_zero (drop 2 t) (\<lambda>c. 48 \<le> c \<and> c \<le> 55)
         else if take 2 t = js ''0b'' \<or> take 2 t = js ''0B''
           then radix_gt_zero (drop 2 t) (\<lambda>c. c = 48 \<or> c = 49)
         else
           (let b = (if hd t = 43 then tl t else t)
            in dec_literal b \<and> \<not> num_is_zero (map char_of b)))"

fun gt_zero :: "json \<Rightarrow> bool" where
  "gt_zero JNull = False"
| "gt_zero (JBool b) = b"
| "gt_zero (JNumber l) = (\<not> num_is_zero l \<and> take 1 l \<noteq> ''-'')"
| "gt_zero (JString u) = str_gt_zero u"
| "gt_zero (JArray xs) =
     (case xs of
        [x] \<Rightarrow>
          (case x of
             JNull \<Rightarrow> False
           | JBool b \<Rightarrow> False
           | JObject ms \<Rightarrow> False
           | _ \<Rightarrow> gt_zero x)
      | _ \<Rightarrow> False)"
| "gt_zero (JObject ms) = False"

text \<open>\<open>x && x.length > 0\<close>, where \<open>x\<close> may be \<open>undefined\<close>.\<close>

definition has_items :: "json option \<Rightarrow> json option" where
  "has_items x =
     (if truthy_opt x
      then Some (JBool (case opt_get x (js ''length'') of None \<Rightarrow> False | Some n \<Rightarrow> gt_zero n))
      else x)"

text \<open>
  The registry filled at start-up: the compiled templates and their configurations. A
  compiled template is run on the template data and returns a text or throws. What it
  returns is not determined by the data: the helpers that a template calls are looked up
  at the time of the call, and they read the state of the process (the \<open>modern-dev\<close>
  template calls \<open>random\<close>, which draws from \<open>Math.random\<close>; \<open>formatDate\<close> reads the
  locale). That state is of a type \<open>'r\<close> left open, and \<open>helper_state\<close> is its value at the
  time of the call. The environment also holds what a rendering itself reads at the time
  of the call: the files \<open>style.css\<close> and \<open>script.js\<close> of a template's directory (\<open>None\<close>
  when absent or unreadable) and the current year.
\<close>

record 'r render_env =
  compiledTemplates :: "jsstr \<Rightarrow> ('r \<Rightarrow> json \<Rightarrow> error + jsstr) option"
  templateConfigs :: "jsstr \<Rightarrow> json option"
  template_file :: "jsstr \<Rightarrow> string \<Rightarrow> jsstr option"
  current_year :: nat
  env_number_text :: "string \<Rightarrow> jsstr"
  helper_state :: 'r

definition defaultContent :: json where
  "defaultContent =
     JObject
       [(js ''hero'', JObject [(js ''name'', JString []), (js ''title'', JString []),
                              (js ''bio'', JString []), (js ''image'', JString []),
                              (js ''social_links'', JObject [])]),
        (js ''about'', JObject [(js ''description'', JString []), (js ''skills'', JArray []),
                               (js ''interests'', JArray [])]),
        (js ''projects'', JArray []),
        (js ''experience'', JArray []),
        (js ''education'', JArray []),
        (js ''contact'', JObject [(js ''email'', JString []), (js ''phone'', JString []),
                                 (js ''location'', JString []),
                                 (js ''social_links'', JObject [])])]"

text \<open>
  A member \<open>k: x\<close> that an object literal adds to the members before it. A member
  whose value is \<open>undefined\<close> is modelled as absent, so the name is removed.
\<close>

definition put_member :: "jsstr \<Rightarrow> json option \<Rightarrow> (jsstr \<times> json) list \<Rightarrow> (jsstr \<times> json) list" where
  "put_member k x ms =
     (case x of None \<Rightarrow> filter (\<lambda>m. fst m \<noteq> k) ms | Some v \<Rightarrow> obj_put k v ms)"

definition prepareTemplateData :: "'r render_env \<Rightarrow> json \<Rightarrow> json option \<Rightarrow> error + json" where
  "prepareTemplateData env portfolioContent config =
     (case js_get portfolioContent (js ''projects'') of
        Inl e \<Rightarrow> Inl e
      | Inr projects \<Rightarrow>
          Inr (JObject
            (put_member (js ''has_education'')
               (has_items (opt_get (Some portfolioContent) (js ''education'')))
            (put_member (js ''has_experience'')
               (has_items (opt_get (Some portfolioContent) (js ''experience'')))
            (put_member (js ''has_projects'') (has_items projects)
            (obj_put (js ''current_year'') (JNumber (show_nat (current_year env)))
            (obj_put (js ''template_config'') (or_else config (JObject []))
            (obj_assign (obj_assign [] (own_props defaultContent))
               (own_props portfolioContent)))))))))"

text \<open>The fixed text of the page, between the places that are filled in.\<close>

definition page_part1 :: jsstr where
  \<open>page_part1 = js (intercalate [CHR 0x0A]
     [''<!DOCTYPE html>'',
      ''<html lang="en">'',
      ''<head>'',
      ''    <meta charset="UTF-8">'',
      ''    <meta name="viewport" content="width=device-width, initial-scale=1.0">'',
      ''    <title>''])\<close>

definition page_part2 :: jsstr where
  \<open>page_part2 = js (intercalate [CHR 0x0A]
     [''</title>'',
      ''    <meta name="description" content="''])\<close>

definition page_part3 :: jsstr where
  \<open>page_part3 = js (intercalate [CHR 0x0A]
     [''">'',
      ''    <meta name="author" content="''])\<close>

definition page_part4 :: jsstr where
  \<open>page_part4 = js (intercalate [CHR 0x0A]
     [''">'',
      ''    '',
      ''    <!-- Open Graph -->'',
      ''    <meta property="og:title" content="''])\<close>

definition page_part5 :: jsstr where
  \<open>page_part5 = js (intercalate [CHR 0x0A]
     [''">'',
      ''    <meta property="og:description" content="''])\<close>

definition page_part6 :: jsstr where
  \<open>page_part6 = js (intercalate [CHR 0x0A]
     [''">'',
      ''    <meta property="og:type" content="website">'',
      ''    '',
      ''    <!-- Font Awesome -->'',
      ''    <link rel="stylesheet" href="https://cdnjs.cloudflare.com/ajax/libs/font-awesome/6.0.0/css/all.min.css">'',
      ''    '',
      ''    <!-- Google Fonts -->'',
      ''    <link rel="preconnect" href="https://fonts.googleapis.com">'',
      ''    <link rel="preconnect" href="https://fonts.gstatic.com" crossorigin>'',
      ''    <link href="https://fonts.googleapis.com/css2?family=Raleway:wght@300;400;500;600;700&display=swap" rel="stylesheet">'',
      ''    '',
      ''    <style>'',
      ''        ''])\<close>

definition page_part7 :: jsstr where
  \<open>page_part7 = js (intercalate [CHR 0x0A]
     ['''',
      ''    </style>'',
      ''</head>'',
      ''<body>'',
      ''    ''])\<close>

definition page_part8 :: jsstr where
  \<open>page_part8 = js (intercalate [CHR 0x0A]
     ['''',
      ''    '',
      ''    <script>'',
      ''        ''])\<close>

definition page_part9 :: jsstr where
  \<open>page_part9 = js (intercalate [CHR 0x0A]
     ['''',
      ''    </script>'',
      ''</body>'',
      ''</html>''])\<close>

definition createCompleteHTML :: "'r render_env \<Rightarrow> jsstr \<Rightarrow> jsstr \<Rightarrow> jsstr \<Rightarrow> json \<Rightarrow> jsstr" where
  "createCompleteHTML env bodyHTML css js' templateData =
     (let name = opt_get (key_of templateData (js ''hero'')) (js ''name'');
          bio = opt_get (key_of templateData (js ''hero'')) (js ''bio'');
          t = (case name of
                 None \<Rightarrow> js ''Portfolio''
               | Some n \<Rightarrow>
                   if truthy n then to_string (env_number_text env) n @ js '' - Portfolio''
                   else js ''Portfolio'');
          description =
            to_string (env_number_text env) (or_else bio (JString (js ''Professional Portfolio'')));
          author = to_string (env_number_text env) (or_else name (JString []))
      in page_part1 @ t @ page_part2 @ description @ page_part3 @ author @ page_part4 @ t @
         page_part5 @ description @ page_part6 @ css @ page_part7 @ bodyHTML @ page_part8 @ js' @
         page_part9)"

definition getTemplateCSS :: "'r render_env \<Rightarrow> jsstr \<Rightarrow> jsstr" where
  "getTemplateCSS env templateId =
     (case template_file env templateId ''style.css'' of None \<Rightarrow> [] | Some c \<Rightarrow> c)"

definition getTemplateJS :: "'r render_env \<Rightarrow> jsstr \<Rightarrow> jsstr" where
  "getTemplateJS env templateId =
     (case template_file env templateId ''script.js'' of None \<Rightarrow> [] | Some c \<Rightarrow> c)"

record render_result =
  r_html :: jsstr
  r_css :: jsstr
  r_js :: jsstr
  r_template :: jsstr

text \<open>\<open>generateHTML\<close>: every error is caught and returned as a failure.\<close>

definition generateHTML :: "'r render_env \<Rightarrow> json \<Rightarrow> jsstr \<Rightarrow> error + render_result" where
  "generateHTML env portfolioContent templateId =
     (case compiledTemplates env templateId of
        None \<Rightarrow> Inl (TemplateNotFound templateId)
      | Some template \<Rightarrow>
          (case prepareTemplateData env portfolioContent (templateConfigs env templateId) of
             Inl e \<Rightarrow> Inl e
           | Inr templateData \<Rightarrow>
               (case template (helper_state env) templateData of
                  Inl e \<Rightarrow> Inl e
                | Inr html \<Rightarrow>
                    Inr \<lparr>r_html = createCompleteHTML env html (getTemplateCSS env templateId)
                                    (getTemplateJS env templateId) templateData,
                          r_css = getTemplateCSS env templateId,
                          r_js = getTemplateJS env templateId,
                          r_template = templateId\<rparr>)))"

text \<open>
  The handler of \<open>GET /api/preview/:id\<close>, after the ownership check has loaded the
  portfolio: the cached page when there is one, otherwise a fresh rendering, which is
  then cached.
\<close>

definition preview :: "'r render_env \<Rightarrow> world \<Rightarrow> nat \<Rightarrow> (error + jsstr) \<times> world" where
  "preview env w i =
     (case findByPk w i of
        None \<Rightarrow> (Inl (Error ''Resource not found''), w)
      | Some p \<Rightarrow>
          (case generated_html p of
             Some h \<Rightarrow>
               if h \<noteq> [] then (Inr h, w)
               else
                 (case generateHTML env (content p) (template_id p) of
                    Inl e \<Rightarrow> (Inl e, w)
                  | Inr r \<Rightarrow>
                      (Inr (r_html r), snd (setGeneratedFiles w p (r_html r) (r_css r) (r_js r))))
           | None \<Rightarrow>
               (case generateHTML env (content p) (template_id p) of
                  Inl e \<Rightarrow> (Inl e, w)
                | Inr r \<Rightarrow>
                    (Inr (r_html r), snd (setGeneratedFiles w p (r_html r) (r_css r) (r_js r))))))"

section \<open>Sample inputs\<close>

text \<open>
  The methods of the built-in prototypes in ECMAScript 2023 (with the legacy methods of
  its Annex B), as a table for the sample services.
\<close>

definition object_methods :: "string list" where
  "object_methods =
     [''constructor'', ''hasOwnProperty'', ''isPrototypeOf'', ''propertyIsEnumerable'',
      ''toLocaleString'', ''toString'', ''valueOf'', ''__defineGetter__'', ''__defineSetter__'',
      ''__lookupGetter__'', ''__lookupSetter__'']"

definition array_methods :: "string list" where
  "array_methods =
     [''at'', ''concat'', ''copyWithin'', ''entries'', ''every'', ''fill'', ''filter'', ''find'',
      ''findIndex'', ''findLast'', ''findLastIndex'', ''flat'', ''flatMap'', ''forEach'',
      ''includes'', ''indexOf'', ''join'', ''keys'', ''lastIndexOf'', ''map'', ''pop'', ''push'',
      ''reduce'', ''reduceRight'', ''reverse'', ''shift'', ''slice'', ''some'', ''sort'',
      ''splice'', ''toReversed'', ''toSorted'', ''toSpliced'', ''unshift'', ''values'', ''with'']"

definition string_methods :: "string list" where
  "string_methods =
     [''anchor'', ''at'', ''big'', ''blink'', ''bold'', ''charAt'', ''charCodeAt'',
      ''codePointAt'', ''concat'', ''endsWith'', ''fixed'', ''fontcolor'', ''fontsize'',
      ''includes'', ''indexOf'', ''italics'', ''lastIndexOf'', ''link'', ''localeCompare'',
      ''match'', ''matchAll'', ''normalize'', ''padEnd'', ''padStart'', ''repeat'', ''replace'',
      ''replaceAll'', ''search'', ''slice'', ''small'', ''split'', ''startsWith'', ''strike'',
      ''sub'', ''substr'', ''substring'', ''sup'', ''toLocaleLowerCase'', ''toLocaleUpperCase'',
      ''toLowerCase'', ''toUpperCase'', ''trim'', ''trimEnd'', ''trimLeft'', ''trimRight'',
      ''trimStart'']"

definition number_methods :: "string list" where
  "number_methods = [''toExponential'', ''toFixed'', ''toPrecision'']"

definition standard_method :: "proto \<Rightarrow> jsstr \<Rightarrow> bool" where
  "standard_method q k \<longleftrightarrow>
     k \<in> set (map js
       (case q of
          ObjectPrototype \<Rightarrow> object_methods
        | ArrayPrototype \<Rightarrow> array_methods
        | StringPrototype \<Rightarrow> string_methods
        | NumberPrototype \<Rightarrow> number_methods
        | BooleanPrototype \<Rightarrow> []))"

text \<open>The fixed member names that the code reads through \<open>js_get\<close>.\<close>

definition fixed_names :: "string list" where
  "fixed_names =
     [''hero'', ''name'', ''title'', ''bio'', ''text'', ''content'', ''description'', ''prompt'',
      ''preferences'', ''username'', ''access_token'', ''projects'', ''education'',
      ''experience'', ''length'']"

definition empty_world :: world where
  "empty_world = \<lparr>portfolios = [], iterations = [], api_calls = [], uuid_next = 0, status_writes = []\<rparr>"

definition prompt_source :: "string \<Rightarrow> source" where
  "prompt_source d = \<lparr>stype = ''prompt'', sdata = Some (JObject [(js ''description'', JString (js d))])\<rparr>"

text \<open>A service whose primary model is overloaded and whose other models answer \<open>{}\<close>.\<close>

definition sv_overloaded :: services where
  "sv_overloaded =
     \<lparr>openai = (\<lambda>n m. if m = primary_model
                        then Inl (ApiError (Some ''model_overloaded'') ''overloaded'')
                        else Inr \<lparr>choices = [''{}''], total_tokens = 7\<rparr>),
      github = (\<lambda>u t. Inl ''offline''), elapsed = 0, number_text = js,
      builtin_method = standard_method\<rparr>"

text \<open>A service that rejects every request.\<close>

definition sv_rejecting :: services where
  "sv_rejecting =
     \<lparr>openai = (\<lambda>n m. Inl (ApiError (Some ''invalid_api_key'') ''rejected'')),
      github = (\<lambda>u t. Inl ''offline''), elapsed = 0, number_text = js,
      builtin_method = standard_method\<rparr>"

text \<open>Sources of a type the normalizer has a handler for, and of one it has none for.\<close>

definition leetcode_source :: source where
  "leetcode_source =
     \<lparr>stype = ''leetcode'', sdata = Some (JObject [(js ''username'', JString (js ''ada''))])\<rparr>"

definition linkedin_source :: source where
  "linkedin_source =
     \<lparr>stype = ''linkedin'', sdata = Some (JObject [(js ''headline'', JString (js ''Engineer''))])\<rparr>"

text \<open>
  A stored portfolio with a cached rendering, the world that holds it, and a service that
  answers every request with a given text.
\<close>

definition portfolio_ada :: portfolio where
  "portfolio_ada =
     \<lparr>p_id = 0, user_id = ''u1'', title = js ''Ada'', slug = js ''ada'', p_status = draft,
      template_id = js ''modern-dev'',
      content = JObject
        [(js ''hero'', JObject [(js ''name'', JString (js ''Ada''))]),
         (js ''contact'', JObject [(js ''email'', JString (js ''a@x.com''))])],
      generated_html = Some (js ''<p>old</p>''), generated_css = None, generated_js = None,
      view_count = 0, is_public = False\<rparr>"

definition world_ada :: world where
  "world_ada = \<lparr>portfolios = [portfolio_ada], iterations = [], api_calls = [], uuid_next = 1,
     status_writes = []\<rparr>"

definition sv_answer :: "string \<Rightarrow> services" where
  "sv_answer t =
     \<lparr>openai = (\<lambda>n m. Inr \<lparr>choices = [t], total_tokens = 42\<rparr>),
      github = (\<lambda>u t. Inl ''offline''), elapsed = 0, number_text = js,
      builtin_method = standard_method\<rparr>"

definition paris_answer :: string where
  \<open>paris_answer = ''{"contact":{"location":"Paris"}}''\<close>

definition compiler_answer :: string where
  \<open>compiler_answer = ''[{"title":"Compiler"}]''\<close>

definition projects_answer :: string where
  \<open>projects_answer = ''{"projects":[{"title":"Compiler"}]}''\<close>

text \<open>An answer with a number beyond the range of a double.\<close>

definition overflow_answer :: string where
  \<open>overflow_answer = ''{"contact":1e400}''\<close>

text \<open>An Iteration record as it is created.\<close>

definition pending_iteration :: iteration where
  "pending_iteration =
     \<lparr>it_id = 0, portfolio_id = Some 0, prompt = ''Make it shorter please'',
      changes_made = JObject [], previous_content = None, iteration_type = Enhance,
      it_status = pending, tokens_used = 0, processing_time_ms = 0, error_message = None\<rparr>"

text \<open>
  Rendering environments. The registry has one template, \<open>modern-dev\<close>, here the template
  \<open>{{current_year}}/{{random 0 9}}\<close>; the state that its helper reads is the number that
  \<open>random\<close> draws. Then the same registry read a year later, after the template's style
  sheet was edited on disk, and with another draw; and one that differs only in another
  template.
\<close>

definition year_template :: "nat \<Rightarrow> json \<Rightarrow> error + jsstr" where
  "year_template draw d =
     (case key_of d (js ''current_year'') of
        Some (JNumber l) \<Rightarrow> Inr (js l @ js ''/'' @ js (show_nat draw))
      | _ \<Rightarrow> Inr (js ''/'' @ js (show_nat draw)))"

definition env_2024 :: "nat render_env" where
  "env_2024 =
     \<lparr>compiledTemplates = (\<lambda>i. if i = js ''modern-dev'' then Some year_template else None),
      templateConfigs = (\<lambda>i. if i = js ''modern-dev''
                              then Some (JObject [(js ''name'', JString (js ''modern-dev''))])
                              else None),
      template_file = (\<lambda>i f. if i = js ''modern-dev'' \<and> f = ''style.css''
                               then Some (js ''body { color: black; }'') else None),
      current_year = 2024,
      env_number_text = js,
      helper_state = 4\<rparr>"





section \<open>Auxiliary facts\<close>

lemma map_of_obj_put: "map_of (obj_put k v ms) = (map_of ms)(k \<mapsto> v)"
  by (induction ms) auto

lemma keys_obj_put: "set (map fst (obj_put k v ms)) = insert k (set (map fst ms))"
proof -
  have "fst ` set (obj_put k v ms) = dom (map_of (obj_put k v ms))"
    by (simp add: dom_map_of_conv_image_fst)
  also have "\<dots> = insert k (dom (map_of ms))" by (simp add: map_of_obj_put)
  also have "\<dots> = insert k (fst ` set ms)" by (simp add: dom_map_of_conv_image_fst)
  finally show ?thesis by simp
qed

lemma distinct_obj_put: "distinct (map fst ms) \<Longrightarrow> distinct (map fst (obj_put k v ms))"
proof (induction ms)
  case Nil
  then show ?case by simp
next
  case (Cons m ms)
  then show ?case using keys_obj_put [of k v ms] by (cases m) auto
qed

lemma obj_assign_Cons: "obj_assign t ((k, v) # ms) = obj_assign (obj_put k v t) ms"
  by (simp add: obj_assign_def)

lemma obj_assign_Nil: "obj_assign t [] = t"
  by (simp add: obj_assign_def)

lemma map_of_obj_assign: "map_of (obj_assign t ms) = map_of t ++ map_of (rev ms)"
proof (induction ms arbitrary: t)
  case Nil
  then show ?case by (simp add: obj_assign_Nil)
next
  case (Cons m ms)
  obtain k v where m: "m = (k, v)" by (cases m)
  have "map_of (obj_assign t (m # ms)) = map_of (obj_put k v t) ++ map_of (rev ms)"
    by (simp add: m obj_assign_Cons Cons.IH)
  also have "\<dots> = map_of t ++ map_of (rev (m # ms))"
    by (simp add: m map_of_obj_put map_add_upd_left)
  finally show ?case .
qed

lemma distinct_obj_assign: "distinct (map fst t) \<Longrightarrow> distinct (map fst (obj_assign t ms))"
proof (induction ms arbitrary: t)
  case Nil
  then show ?case by (simp add: obj_assign_Nil)
next
  case (Cons m ms)
  then show ?case by (cases m) (simp add: obj_assign_Cons distinct_obj_put)
qed

lemma map_of_rev_distinct: "distinct (map fst ms) \<Longrightarrow> map_of (rev ms) = map_of ms"
proof (induction ms)
  case Nil
  then show ?case by simp
next
  case (Cons m ms)
  obtain k v where m: "m = (k, v)" by (cases m)
  from Cons.prems m have nk: "k \<notin> fst ` set ms" by auto
  then have "map_of ms k = None" by (simp add: map_of_eq_None_iff)
  with Cons m show ?case
    by (auto simp: map_add_def fun_eq_iff split: option.splits)
qed


lemma inj_js: "js a = js b \<Longrightarrow> a = b"
  unfolding js_def by (rule map_injective) (auto simp: inj_on_def)

lemma distinct_index_keys: "distinct (map (\<lambda>i. js (show_nat i)) [0..<n])"
  by (auto simp: distinct_map inj_on_def dest: inj_js show_nat_inj)

lemma top_distinct_simps:
  "top_distinct JNull" "top_distinct (JBool b)" "top_distinct (JNumber l)"
  "top_distinct (JString u)" "top_distinct (JArray xs)"
  "top_distinct (JObject ms) \<longleftrightarrow> distinct (map fst ms)"
  by (simp_all add: top_distinct_def distinct_index_keys)

lemma top_distinct_obj_assign: "top_distinct (JObject (obj_assign [] ms))"
  by (simp add: top_distinct_simps distinct_obj_assign)



lemma pval_pafter_top_distinct:
  "pval st ts = Some r \<Longrightarrow> top_distinct r"
  "top_distinct v \<Longrightarrow> pafter v st' ts' = Some r' \<Longrightarrow> top_distinct r'"
proof (induction st ts and v st' ts' arbitrary: r and r' rule: pval_pafter.induct)
  case (1 st)
  then show ?case by simp
next
  case (2 st t ts)
  from "2.prems" have
    "(case t of
        TNull \<Rightarrow> pafter JNull st ts
      | TTrue \<Rightarrow> pafter (JBool True) st ts
      | TFalse \<Rightarrow> pafter (JBool False) st ts
      | TNum l \<Rightarrow> pafter (JNumber l) st ts
      | TStr u \<Rightarrow> pafter (JString u) st ts
      | TLBrack \<Rightarrow>
          (case ts of
             TRBrack # ts' \<Rightarrow> pafter (JArray []) st ts'
           | _ \<Rightarrow> pval (FArr [] # st) ts)
      | TLBrace \<Rightarrow>
          (case ts of
             TRBrace # ts' \<Rightarrow> pafter (JObject []) st ts'
           | TStr k # TColon # ts' \<Rightarrow> pval (FObj [] k # st) ts'
           | _ \<Rightarrow> None)
      | _ \<Rightarrow> None) = Some r"
    by (simp only: pval.simps(2))
  with "2.IH" show ?case
    by (auto simp del: pval.simps pafter.simps simp: top_distinct_simps
        split: token.splits list.splits)
next
  case (3 v ts)
  then show ?case by (auto split: if_splits)
next
  case (4 v acc st ts)
  from "4.prems"(2) have
    "(case ts of
        TComma # ts' \<Rightarrow> pval (FArr (v # acc) # st) ts'
      | TRBrack # ts' \<Rightarrow> pafter (JArray (rev (v # acc))) st ts'
      | _ \<Rightarrow> None) = Some r'"
    by (simp only: pafter.simps(2))
  with "4.IH" show ?case
    by (auto simp del: pval.simps pafter.simps simp: top_distinct_simps
        split: token.splits list.splits)
next
  case (5 v acc k st ts)
  from "5.prems"(2) have
    "(case ts of
        TComma # TStr k' # TColon # ts' \<Rightarrow> pval (FObj (acc @ [(k, v)]) k' # st) ts'
      | TRBrace # ts' \<Rightarrow> pafter (JObject (obj_assign [] (acc @ [(k, v)]))) st ts'
      | _ \<Rightarrow> None) = Some r'"
    by (simp only: pafter.simps(3))
  with "5.IH" show ?case
    by (auto simp del: pval.simps pafter.simps simp: top_distinct_obj_assign
        split: token.splits list.splits)
qed

lemma JSON_parse_top_distinct: "JSON_parse s = Some v \<Longrightarrow> top_distinct v"
  by (auto simp: JSON_parse_def split: option.splits dest: pval_pafter_top_distinct(1))

lemma parsePortfolioContent_top_distinct: "top_distinct (parsePortfolioContent s)"
  by (auto simp: parsePortfolioContent_def fallback_content_def top_distinct_simps js_def
      split: option.splits dest: JSON_parse_top_distinct)

lemma processSources_append:
  "processSources sv w (xs @ ys) =
     (case processSources sv w xs of
        (b, w1) \<Rightarrow> (case processSources sv w1 ys of (a, w2) \<Rightarrow> (b @ a, w2)))"
proof (induction xs arbitrary: w)
  case Nil
  then show ?case by (simp split: prod.splits)
next
  case (Cons x xs)
  then show ?case by (simp split: prod.splits sum.splits)
qed

lemma process_source_unknown:
  "stype s \<notin> {''github'', ''resume'', ''prompt'', ''linkedin''} \<Longrightarrow>
   process_source sv w s = (Inr s, w)"
  by (simp add: process_source_def)

definition same_db :: "world \<Rightarrow> world \<Rightarrow> bool" where
  "same_db w w' \<longleftrightarrow> portfolios w' = portfolios w \<and> iterations w' = iterations w \<and>
     uuid_next w' = uuid_next w \<and> status_writes w' = status_writes w"

lemma same_db_refl: "same_db w w"
  by (simp add: same_db_def)

lemma same_db_trans: "same_db a b \<Longrightarrow> same_db b c \<Longrightarrow> same_db a c"
  by (simp add: same_db_def)

lemma chat_create_same_db: "chat_create sv w m = (r, w') \<Longrightarrow> same_db w w'"
  by (auto simp: chat_create_def same_db_def)

lemma primary_attempt_same_db: "primary_attempt sv w ss pf = (r, w') \<Longrightarrow> same_db w w'"
  by (auto simp: primary_attempt_def same_db_refl split: if_splits prod.splits sum.splits
      dest: chat_create_same_db)

lemma generateWithFallback_same_db: "generateWithFallback sv w ss pf = (r, w') \<Longrightarrow> same_db w w'"
  by (auto simp: generateWithFallback_def same_db_refl split: if_splits prod.splits sum.splits
      dest: chat_create_same_db)

lemma aiService_generatePortfolio_same_db:
  "aiService_generatePortfolio sv w ss pf = (r, w') \<Longrightarrow> same_db w w'"
  by (auto simp: aiService_generatePortfolio_def split: if_splits prod.splits sum.splits
      dest: primary_attempt_same_db generateWithFallback_same_db same_db_trans)

lemma enhanceSection_same_db: "enhanceSection sv w c sec pr = (r, w') \<Longrightarrow> same_db w w'"
  by (auto simp: enhanceSection_def same_db_refl split: if_splits prod.splits sum.splits
      dest: chat_create_same_db)

lemma key_of_JObject: "key_of (JObject ms) k = map_of ms k"
  by (simp add: key_of_def)

text \<open>
  Under the standard table, a read under one of the fixed names finds own members only.
\<close>

lemma fixed_names_not_builtin:
  "list_all (\<lambda>s. s \<noteq> ''__proto__'' \<and>
      s \<notin> set (object_methods @ array_methods @ string_methods @ number_methods)) fixed_names"
  by code_simp

lemma js_eq_iff: "js a = js b \<longleftrightarrow> a = b"
  using inj_js by blast

lemma inherited_fixed:
  assumes "s \<in> set fixed_names"
  shows "inherited standard_method q (js s) = None"
proof -
  from fixed_names_not_builtin assms have
    "s \<noteq> ''__proto__''"
    "s \<notin> set (object_methods @ array_methods @ string_methods @ number_methods)"
    unfolding list_all_iff by blast+
  then show ?thesis
    by (cases q) (auto simp: inherited_def standard_method_def js_eq_iff)
qed

lemma js_read_fixed:
  assumes "s \<in> set fixed_names"
  shows "js_read standard_method v (js s) =
     (case js_get v (js s) of Inl e \<Rightarrow> Inl e | Inr x \<Rightarrow> Inr (map_option Json x))"
  using inherited_fixed [OF assms]
  by (cases v) (auto simp: js_read_def split: option.splits)

lemma map_of_map_prod: "map_of (map (map_prod id f) xs) k = map_option f (map_of xs k)"
  by (induction xs) auto

lemma map_of_members: "map_of (members v) k = map_option Json (key_of v k)"
  by (simp add: members_def key_of_def map_of_map_prod)

lemma keys_members: "map fst (members v) = map fst (own_props v)"
  by (simp add: members_def comp_def)

lemma key_of_stringify_parse_obj:
  "distinct (map fst ms) \<Longrightarrow>
   key_of (stringify_parse_obj ms) k = Option.bind (map_of ms k) stored_val"
proof (induction ms arbitrary: k)
  case Nil
  then show ?case by (simp add: stringify_parse_obj_def key_of_def List.map_filter_simps)
next
  case (Cons m ms)
  then have ih: "\<And>k. map_of (List.map_filter
      (\<lambda>m. map_option (Pair (fst m)) (stored_val (snd m))) ms) k =
      Option.bind (map_of ms k) stored_val"
    by (simp add: stringify_parse_obj_def key_of_def)
  from Cons.prems have fresh: "map_of ms (fst m) = None"
    by (simp add: map_of_eq_None_iff)
  show ?case
    using ih [of k] ih [of "fst m"] fresh
    by (cases m; cases "stored_val (snd m)")
       (auto simp: stringify_parse_obj_def key_of_def List.map_filter_simps)
qed

lemma map_of_spread:
  assumes "top_distinct c"
  shows "map_of (obj_assign [] (members c)) k = map_option Json (key_of c k)"
proof -
  from assms have "distinct (map fst (members c))"
    by (simp add: top_distinct_def keys_members)
  then have "map_of (rev (members c)) = map_of (members c)"
    by (rule map_of_rev_distinct)
  then show ?thesis by (simp add: map_of_obj_assign map_of_members)
qed

lemma distinct_spread: "distinct (map fst (obj_assign [] ms))"
  by (simp add: distinct_obj_assign)

text \<open>
  A document that the setter has written reads back as it is, and has no member name
  twice.
\<close>

lemma zero_literal: "\<not> num_is_infinite ''0''" "num_is_zero ''0''"
  by code_simp+

lemma stringify_parse_idem: "stringify_parse (stringify_parse v) = stringify_parse v"
proof (induction v)
  case (JNumber l)
  show ?case using zero_literal by simp
next
  case (JArray xs)
  then show ?case by (induction xs) simp_all
next
  case (JObject ms)
  have "map_prod id stringify_parse (map_prod id stringify_parse m) =
      map_prod id stringify_parse m" if "m \<in> set ms" for m
    using JObject [of m "snd m"] that by (cases m) (simp add: snds.simps)
  then have "map (\<lambda>m. map_prod id stringify_parse (map_prod id stringify_parse m)) ms =
      map (map_prod id stringify_parse) ms"
    by (intro map_cong refl)
  then show ?case by (simp add: comp_def)
qed simp_all

lemma stored_val_stored: "stored_val x = Some v \<Longrightarrow> stringify_parse v = v"
  using zero_literal
  by (cases x) (auto simp: stringify_parse_idem split: proto.splits)

lemma content_set_obj_stored: "stringify_parse (content_set_obj ms) = content_set_obj ms"
proof -
  have "map (map_prod id stringify_parse)
      (List.map_filter (\<lambda>m. map_option (Pair (fst m)) (stored_val (snd m))) ms) =
      List.map_filter (\<lambda>m. map_option (Pair (fst m)) (stored_val (snd m))) ms"
    by (induction ms) (auto simp: List.map_filter_simps stored_val_stored split: option.splits)
  then show ?thesis by (simp add: content_set_obj_def stringify_parse_obj_def)
qed

lemma content_set_stored: "stringify_parse (content_set v) = content_set v"
  by (simp add: content_set_def stringify_parse_idem)

lemma keys_map_filter:
  "set (map fst (List.map_filter (\<lambda>m. map_option (Pair (fst m)) (f (snd m))) ms)) \<subseteq>
   set (map fst ms)"
  by (induction ms) (auto simp: List.map_filter_simps split: option.splits)

lemma distinct_map_filter:
  "distinct (map fst ms) \<Longrightarrow>
   distinct (map fst (List.map_filter (\<lambda>m. map_option (Pair (fst m)) (f (snd m))) ms))"
proof (induction ms)
  case Nil
  then show ?case by (simp add: List.map_filter_simps)
next
  case (Cons m ms)
  with keys_map_filter [of f ms] show ?case
    by (auto simp: List.map_filter_simps split: option.splits)
qed

lemma top_distinct_updated:
  "top_distinct (content_set_obj (obj_assign (obj_assign [] a) b))"
  by (simp add: top_distinct_def content_set_obj_def stringify_parse_obj_def
      distinct_map_filter distinct_obj_assign)

text \<open>The stored document after a section-scoped and after a whole-document update.\<close>

lemma key_of_section_update:
  assumes "top_distinct c"
  shows "key_of (content_set_obj (obj_assign (obj_assign [] (members c))
             (obj_put k x (obj_assign [] (members c))))) k' =
     (if k' = k then stored_val x else map_option stringify_parse (key_of c k'))"
proof -
  let ?new = "obj_put k x (obj_assign [] (members c))"
  have d: "distinct (map fst ?new)"
    by (simp add: distinct_obj_put distinct_spread)
  then have r: "map_of (rev ?new) = map_of ?new" by (rule map_of_rev_distinct)
  have "distinct (map fst (obj_assign (obj_assign [] (members c)) ?new))"
    by (simp add: distinct_obj_assign distinct_spread)
  then show ?thesis
    by (simp add: content_set_obj_def key_of_stringify_parse_obj r map_of_obj_put
        map_of_obj_assign [of "obj_assign [] (members c)"]
        map_of_spread [OF assms] map_add_def
        split: option.splits)
qed

lemma key_of_whole_update:
  assumes "top_distinct c" "top_distinct g"
  shows "key_of (content_set_obj (obj_assign (obj_assign [] (members c))
             (obj_assign (obj_assign [] (members c)) (members g)))) k =
     (case key_of g k of
        Some v \<Rightarrow> Some (stringify_parse v)
      | None \<Rightarrow> map_option stringify_parse (key_of c k))"
proof -
  let ?new = "obj_assign (obj_assign [] (members c)) (members g)"
  from assms(2) have "distinct (map fst (members g))"
    by (simp add: top_distinct_def keys_members)
  then have g: "map_of (rev (members g)) = map_of (members g)" by (rule map_of_rev_distinct)
  have d: "distinct (map fst ?new)"
    by (simp add: distinct_obj_assign distinct_spread)
  then have r: "map_of (rev ?new) = map_of ?new" by (rule map_of_rev_distinct)
  have "distinct (map fst (obj_assign (obj_assign [] (members c)) ?new))"
    by (simp add: distinct_obj_assign distinct_spread)
  then show ?thesis
    by (simp add: content_set_obj_def key_of_stringify_parse_obj r g
        map_of_obj_assign [of "obj_assign [] (members c)"]
        map_of_spread [OF assms(1)] map_of_members map_add_def
        split: option.splits)
qed

text \<open>In a document that reads back as it is, every top-level value reads back as it is.\<close>

lemma map_fixed: "map f xs = xs \<Longrightarrow> x \<in> set xs \<Longrightarrow> f x = x"
  by (induction xs) auto

lemma key_of_stored:
  assumes "stringify_parse c = c" "key_of c k = Some v"
  shows "stringify_parse v = v"
proof (cases c)
  case (JObject ms)
  with assms(1) have "map (map_prod id stringify_parse) ms = ms" by simp
  moreover from assms(2) JObject have "(k, v) \<in> set ms"
    by (simp add: key_of_def map_of_SomeD)
  ultimately have "map_prod id stringify_parse (k, v) = (k, v)" by (rule map_fixed)
  then show ?thesis by simp
next
  case (JArray xs)
  with assms(1) have "map stringify_parse xs = xs" by simp
  moreover from assms(2) JArray have "v \<in> set xs"
    by (auto simp: key_of_def dest!: map_of_SomeD set_zip_rightD)
  ultimately show ?thesis by (rule map_fixed)
next
  case (JString u)
  with assms(2) show ?thesis
    by (auto simp: key_of_def dest!: map_of_SomeD set_zip_rightD)
qed (use assms(2) in \<open>simp_all add: key_of_def\<close>)

lemma find_replace:
  "p_id p' = i \<Longrightarrow>
   find (\<lambda>q. p_id q = i) (map (\<lambda>q. if p_id q = i then p' else q) xs) =
     (case find (\<lambda>q. p_id q = i) xs of None \<Rightarrow> None | Some q \<Rightarrow> Some p')"
  by (induction xs) auto

lemma findByPk_id: "findByPk w i = Some p \<Longrightarrow> p_id p = i"
  by (auto simp: findByPk_def find_Some_iff)

lemma findByPk_save:
  assumes "findByPk w i = Some p" "p_id p' = i" "portfolios wa = portfolios w"
  shows "findByPk (save_portfolio wa p') i = Some p'"
  using assms find_replace [of p' i "portfolios w"]
  by (simp add: findByPk_def save_portfolio_def)

lemma save_portfolio_frame:
  "iterations (save_portfolio w p) = iterations w"
  "status_writes (save_portfolio w p) = status_writes w"
  "uuid_next (save_portfolio w p) = uuid_next w"
  "api_calls (save_portfolio w p) = api_calls w"
  by (simp_all add: save_portfolio_def)

lemma enhance_steps_section:
  assumes "enhance_steps sv w p pr (Some sec) = (Inr (p', t), w')" "sec \<noteq> []"
  shows "\<exists>ai wa x. enhanceSection sv w (content p) sec pr = (Inr ai, wa) \<and>
     section_value sv (ai_content ai) sec = Inr x \<and>
     p' = p\<lparr>content := content_set_obj (obj_assign (obj_assign [] (members (content p)))
             (obj_put (js sec) x (obj_assign [] (members (content p)))))\<rparr> \<and>
     w' = save_portfolio wa p'"
  using assms
  by (auto simp: enhance_steps_def updateContent_def Let_def split: prod.splits sum.splits)

lemma enhance_steps_whole:
  assumes "enhance_steps sv w p pr None = (Inr (p', t), w')"
  shows "\<exists>ai wa. aiService_generatePortfolio sv w [enhancement_source pr]
        (JObject [(js ''existing_content'', content p)]) = (Inr ai, wa) \<and>
     p' = p\<lparr>content := content_set_obj (obj_assign (obj_assign [] (members (content p)))
             (obj_assign (obj_assign [] (members (content p))) (members (ai_content ai))))\<rparr> \<and>
     w' = save_portfolio wa p'"
  using assms
  by (auto simp: enhance_steps_def updateContent_def Let_def split: prod.splits sum.splits)

lemma enhance_steps_failure:
  "enhance_steps sv w p pr section = (Inl e, w') \<Longrightarrow> portfolios w' = portfolios w"
  by (auto simp: enhance_steps_def updateContent_def Let_def same_db_def
      split: option.splits if_splits prod.splits sum.splits
      dest!: enhanceSection_same_db aiService_generatePortfolio_same_db)

lemma create_iteration_some:
  "PortfolioIteration_create w (Some i) pr ty st prev = (r, w0) \<Longrightarrow>
   \<exists>it. r = Inr it \<and> it_id it = uuid_next w \<and> it_status it = st \<and>
     portfolios w0 = portfolios w \<and> api_calls w0 = api_calls w \<and>
     iterations w0 = iterations w @ [it] \<and>
     status_writes w0 = status_writes w @ [(uuid_next w, st)]"
  by (auto simp: PortfolioIteration_create_def Let_def)

lemma enhance_success_inv:
  assumes "enhancePortfolio sv w pid pr section = (Inr res, w')" "findByPk w pid = Some p"
  shows "\<exists>it w0 p' t w1.
     PortfolioIteration_create w (Some pid) pr Enhance pending (Some (content p)) = (Inr it, w0) \<and>
     enhance_steps sv w0 p pr section = (Inr (p', t), w1) \<and>
     e_portfolio res = p' \<and> portfolios w' = portfolios w1"
  using assms
  by (auto simp: enhancePortfolio_def markCompleted_def save_iteration_def Let_def
      split: prod.splits sum.splits)


lemma enhance_failure_inv:
  assumes "enhancePortfolio sv w pid pr section = (Inl e, w')"
  shows "portfolios w' = portfolios w"
proof (cases "findByPk w pid")
  case None
  with assms show ?thesis by (simp add: enhancePortfolio_def)
next
  case (Some p)
  obtain r0 w0 where cr:
    "PortfolioIteration_create w (Some pid) pr Enhance pending (Some (content p)) = (r0, w0)"
    by (cases "PortfolioIteration_create w (Some pid) pr Enhance pending (Some (content p))")
  from create_iteration_some [OF cr] obtain it where
    r0: "r0 = Inr it" and p0: "portfolios w0 = portfolios w"
    by blast
  obtain r1 w1 where st: "enhance_steps sv w0 p pr section = (r1, w1)"
    by (cases "enhance_steps sv w0 p pr section")
  show ?thesis
  proof (cases r1)
    case (Inl e1)
    from enhance_steps_failure [OF st [unfolded Inl]] p0 have "portfolios w1 = portfolios w"
      by simp
    with assms Some cr r0 st Inl show ?thesis
      by (auto simp: enhancePortfolio_def markFailed_def save_iteration_def Let_def)
  next
    case (Inr pt)
    with assms Some cr r0 st show ?thesis
      by (auto simp: enhancePortfolio_def markCompleted_def Let_def split: prod.splits)
  qed
qed

lemma aiService_generatePortfolio_top_distinct:
  "aiService_generatePortfolio sv w ss pf = (Inr ai, w') \<Longrightarrow> top_distinct (ai_content ai)"
  by (auto simp: aiService_generatePortfolio_def primary_attempt_def generateWithFallback_def
      parsePortfolioContent_top_distinct split: if_splits prod.splits sum.splits)

lemma found_ada: "findByPk world_ada 0 = Some portfolio_ada"
  by (simp add: findByPk_def world_ada_def portfolio_ada_def)

lemma wf_ada: "top_distinct (content portfolio_ada)"
  by (simp add: portfolio_ada_def top_distinct_simps js_def)

lemma enhance_steps_frame:
  "enhance_steps sv w p pr section = (r, w') \<Longrightarrow>
   iterations w' = iterations w \<and> status_writes w' = status_writes w"
  by (auto simp: enhance_steps_def updateContent_def Let_def save_portfolio_frame same_db_def
      split: option.splits if_splits prod.splits sum.splits
      dest!: enhanceSection_same_db aiService_generatePortfolio_same_db)

lemma map_replace_fresh:
  "\<forall>r \<in> set xs. it_id r \<noteq> it_id it' \<Longrightarrow>
   map (\<lambda>r. if it_id r = it_id it' then it' else r) xs = xs"
  by (induction xs) auto

lemma lower_unit_not_upper: "x \<in> set (lower_unit u) \<Longrightarrow> \<not> (65 \<le> x \<and> x \<le> 90)"
  by (auto simp: lower_unit_def split: if_splits)

lemma toLowerCase_not_upper: "x \<in> set (toLowerCase t) \<Longrightarrow> \<not> (65 \<le> x \<and> x \<le> 90)"
  by (auto simp: toLowerCase_def dest: lower_unit_not_upper)

lemma hyphenate_units:
  "x \<in> set (hyphenate f s) \<Longrightarrow> x = 45 \<or> (x \<in> set s \<and> \<not> is_space x)"
  by (induction f s rule: hyphenate.induct) (auto split: if_splits)

lemma base_slug_units: "x \<in> set (base_slug t) \<Longrightarrow> slug_unit x"
proof -
  assume "x \<in> set (base_slug t)"
  then have "x \<in> set (hyphenate False (filter (\<lambda>u. is_alnum u \<or> is_space u) (toLowerCase t)))"
    by (auto simp: base_slug_def dest: in_set_takeD)
  then have "x = 45 \<or> (x \<in> set (toLowerCase t) \<and> is_alnum x)"
    by (auto dest!: hyphenate_units)
  then show ?thesis
    by (auto simp: slug_unit_def is_alnum_def dest: toLowerCase_not_upper)
qed

lemma base_slug_length: "length (base_slug t) \<le> 50"
  by (simp add: base_slug_def)

lemma show_nat_digits: "x \<in> set (js (show_nat n)) \<Longrightarrow> 48 \<le> x \<and> x \<le> 57"
proof (induction n arbitrary: x rule: show_nat.induct)
  case (1 n)
  show ?case
  proof (cases "n < 10")
    case True
    with "1.prems" show ?thesis
      by (subst (asm) show_nat.simps) (simp add: js_def of_char_digit_char)
  next
    case False
    have m: "n mod 10 < 10" by simp
    from False "1.prems" have "x \<in> set (js (show_nat (n div 10))) \<or> x = 48 + n mod 10"
      by (subst (asm) show_nat.simps) (auto simp: js_def of_char_digit_char [OF m])
    with "1.IH" False m show ?thesis by auto
  qed
qed

lemma show_nat_length: "n < 10 ^ d \<Longrightarrow> 0 < d \<Longrightarrow> length (show_nat n) \<le> d"
proof (induction n arbitrary: d rule: show_nat.induct)
  case (1 n)
  show ?case
  proof (cases "n < 10")
    case True
    with "1.prems" show ?thesis by (subst show_nat.simps) simp
  next
    case False
    with "1.prems" obtain d' where d: "d = Suc d'" by (cases d) auto
    with False "1.prems" have "0 < d'" by (cases d') auto
    moreover from d "1.prems" have "n div 10 < 10 ^ d'"
      by (simp add: less_mult_imp_div_less mult.commute)
    ultimately have "length (show_nat (n div 10)) \<le> d'" using "1.IH" False by simp
    with False d show ?thesis by (subst show_nat.simps) simp
  qed
qed

lemma slug_name_inj: "slug_name b i = slug_name b j \<Longrightarrow> i = j"
proof -
  assume a: "slug_name b i = slug_name b j"
  have ne: "candidate b k \<noteq> b" for k
  proof
    assume "candidate b k = b"
    then have "length (candidate b k) = length b" by simp
    then show False by (simp add: candidate_def)
  qed
  show ?thesis
  proof (cases "i = 0")
    case True
    with a ne [of j] show ?thesis by (auto simp: slug_name_def split: if_splits)
  next
    case False
    with a ne [of i] have "j \<noteq> 0" by (auto simp: slug_name_def split: if_splits)
    with a False show ?thesis by (auto simp: slug_name_def dest: candidate_inj)
  qed
qed

lemma slug_loop_invariant:
  assumes inv: "\<And>i. i \<le> j \<Longrightarrow> findByUserAndSlug w u (slug_name b i) \<noteq> None \<longleftrightarrow> i < j"
  shows "i \<le> j \<Longrightarrow> slug_loop w u b (slug_name b i) (Suc i) = slug_name b j"
proof (induction "j - i" arbitrary: i)
  case 0
  then have "i = j" by simp
  with inv [of j] show ?case by (subst slug_loop.simps) simp
next
  case (Suc d)
  then have lt: "i < j" by simp
  with inv [of i] have "findByUserAndSlug w u (slug_name b i) \<noteq> None" by simp
  moreover have "candidate b (Suc i) = slug_name b (Suc i)" by (simp add: slug_name_def)
  moreover from Suc lt have "slug_loop w u b (slug_name b (Suc i)) (Suc (Suc i)) = slug_name b j"
    by simp
  ultimately show ?case by (subst slug_loop.simps) simp
qed

lemma generateSlug_invariant:
  assumes "\<And>i. i \<le> j \<Longrightarrow> findByUserAndSlug w u (slug_name (base_slug t) i) \<noteq> None \<longleftrightarrow> i < j"
  shows "generateSlug w u t = slug_name (base_slug t) j"
  using slug_loop_invariant [OF assms, of 0] by (simp add: generateSlug_def slug_name_def)

lemma slug_loop_free: "findByUserAndSlug w u (slug_loop w u b s c) = None"
proof (induction w u b s c rule: slug_loop.induct)
  case (1 w u b s c)
  then show ?case by (subst slug_loop.simps) simp
qed

lemma slug_name_format:
  assumes "b \<noteq> []" "\<And>x. x \<in> set b \<Longrightarrow> slug_unit x"
  shows "slug_format (slug_name b i)"
  using assms
  by (auto simp: slug_format_def slug_name_def candidate_def slug_unit_def is_alnum_def
      dest!: show_nat_digits)

lemma slug_name_length:
  assumes "length b \<le> 50" "i < 10 ^ 204"
  shows "length (slug_name b i) \<le> 255"
proof -
  from assms(2) have "length (show_nat i) \<le> 204" by (rule show_nat_length) simp
  with assms(1) show ?thesis by (simp add: slug_name_def candidate_def js_def)
qed

lemma base_slug_Nil: "base_slug [] = []"
  by (simp add: base_slug_def toLowerCase_def)

lemma createPortfolio_invariant:
  assumes inv: "\<And>i. i < M \<Longrightarrow> findByUserAndSlug w u (slug_name (base_slug t) i) \<noteq> None \<longleftrightarrow> i < j"
    and ne: "base_slug t \<noteq> []" and len: "length t \<le> 255" and j: "j < 10 ^ 204" and jm: "j < M"
  shows "\<exists>p w'. createPortfolio w u t = (Inr p, w') \<and> slug p = slug_name (base_slug t) j \<and>
    (\<forall>i < M. findByUserAndSlug w' u (slug_name (base_slug t) i) \<noteq> None \<longleftrightarrow> i < Suc j)"
proof -
  let ?s = "slug_name (base_slug t) j"
  have g: "generateSlug w u t = ?s" using jm by (intro generateSlug_invariant inv) simp
  from ne have t1: "1 \<le> length t" by (cases t) (auto simp: base_slug_Nil)
  have fmt: "slug_format ?s" by (rule slug_name_format [OF ne base_slug_units])
  have l255: "length ?s \<le> 255" by (rule slug_name_length [OF base_slug_length j])
  from fmt have l1: "1 \<le> length ?s" by (cases ?s) (auto simp: slug_format_def)
  from inv [OF jm] have free: "findByUserAndSlug w u ?s = None" by simp
  define p where "p = \<lparr>p_id = uuid_next w, user_id = u, title = t, slug = ?s,
     p_status = draft, template_id = js ''modern-dev'', content = content_set getDefaultContent,
     generated_html = None, generated_css = None, generated_js = None,
     view_count = 0, is_public = False\<rparr>"
  define w' where "w' = w\<lparr>portfolios := portfolios w @ [p], uuid_next := Suc (uuid_next w)\<rparr>"
  have c: "createPortfolio w u t = (Inr p, w')"
    using g t1 len fmt l1 l255 free
    by (simp add: createPortfolio_def Portfolio_create_def p_def w'_def Let_def)
  have sp: "slug p = ?s" "user_id p = u" by (simp_all add: p_def)
  have "findByUserAndSlug w' u (slug_name (base_slug t) i) \<noteq> None \<longleftrightarrow> i < Suc j"
    if im: "i < M" for i
  proof -
    have "findByUserAndSlug w' u (slug_name (base_slug t) i) \<noteq> None \<longleftrightarrow>
        findByUserAndSlug w u (slug_name (base_slug t) i) \<noteq> None \<or>
        slug_name (base_slug t) i = ?s"
      unfolding findByUserAndSlug_def find_Some_in_set w'_def using sp by auto
    also have "\<dots> \<longleftrightarrow> i < j \<or> i = j"
      using inv [OF im] by (auto dest: slug_name_inj)
    finally show ?thesis by auto
  qed
  with c sp show ?thesis by blast
qed

lemma create_many_invariant:
  assumes ne: "base_slug t \<noteq> []" and len: "length t \<le> 255"
  shows "(\<And>i. i < M \<Longrightarrow> findByUserAndSlug w u (slug_name (base_slug t) i) \<noteq> None \<longleftrightarrow> i < j) \<Longrightarrow>
    j + n \<le> M \<Longrightarrow> M \<le> 10 ^ 204 \<Longrightarrow>
    fst (create_many w u t n) = map (slug_name (base_slug t)) [j..<j + n]"
proof (induction n arbitrary: w j)
  case 0
  then show ?case by simp
next
  case (Suc n)
  from Suc.prems(2,3) have j: "j < 10 ^ 204" and jm: "j < M" by simp_all
  from createPortfolio_invariant [OF Suc.prems(1) ne len j jm] obtain p w' where
    c: "createPortfolio w u t = (Inr p, w')" and s: "slug p = slug_name (base_slug t) j"
    and inv': "\<And>i. i < M \<Longrightarrow>
      findByUserAndSlug w' u (slug_name (base_slug t) i) \<noteq> None \<longleftrightarrow> i < Suc j"
    by blast
  from Suc.prems(2) have "Suc j + n \<le> M" by simp
  from Suc.IH [OF inv' this Suc.prems(3)] have
    ih: "fst (create_many w' u t n) = map (slug_name (base_slug t)) [Suc j..<Suc j + n]" .
  have u: "[j..<j + Suc n] = j # [Suc j..<Suc j + n]" by (simp add: upt_conv_Cons)
  show ?case unfolding u using c s ih by (auto simp del: upt_Suc split: prod.splits)
qed

lemmas slug_eval =
  base_slug_def toLowerCase_def lower_unit_def is_alnum_def is_space_def js_def
  createPortfolio_def Portfolio_create_def generateSlug_def
  findByUserAndSlug_def empty_world_def slug_format_def candidate_def Let_def
  digit_char_def content_set_def getDefaultContent_def




lemma enhance_steps_portfolio:
  "enhance_steps sv w p pr sec = (Inr (p', t), w') \<Longrightarrow>
   \<exists>c wa. same_db w wa \<and> p' = p\<lparr>content := c\<rparr> \<and> w' = save_portfolio wa p'"
  by (auto simp: enhance_steps_def updateContent_def Let_def
      split: option.splits if_splits prod.splits sum.splits
      dest: enhanceSection_same_db aiService_generatePortfolio_same_db)

section \<open>Properties of the Model Response Parser\<close>

text \<open>
  C1 (as stated, refuted): the portfolio parse would return a document holding all six
  schema keys on each of its three paths. On the fallback path (text that is not JSON and
  has no fenced block) the result lacks \<open>experience\<close> and \<open>education\<close>; on the direct
  path the text \<open>{}\<close> parses to an object with no key at all; on the fenced path a
  block holding \<open>{"hero":1}\<close> yields a document with the single key \<open>hero\<close>.
\<close>

theorem parsePortfolioContent_six_keys_counterexample:
  \<open>\<not> has_schema_keys (parsePortfolioContent ''hello'') \<and>
   \<not> has_schema_keys (parsePortfolioContent ''{}'') \<and>
   \<not> has_schema_keys
       (parsePortfolioContent (''```json'' @ [CHR 0x0A] @ ''{"hero":1}'' @ [CHR 0x0A] @ ''```''))\<close>
  by code_simp

text \<open>
  C1 (amended): for every raw text the portfolio parse returns a value (it has no failing
  branch): what \<open>JSON.parse\<close> gives for the whole text when that succeeds, otherwise what
  it gives for the first fenced \<open>json\<close> block when there is one and it parses, otherwise
  the fixed fallback document. A parsed value is returned as it is, with no key added;
  the fallback document has exactly the keys \<open>hero\<close>, \<open>about\<close>, \<open>projects\<close>, \<open>contact\<close>
  with their empty shapes, and neither \<open>experience\<close> nor \<open>education\<close>.
\<close>

theorem parsePortfolioContent_paths:
  "((\<exists>v. JSON_parse raw = Some v \<and> parsePortfolioContent raw = v) \<or>
    (\<exists>inner v. JSON_parse raw = None \<and> fence_match raw = Some inner \<and>
        JSON_parse inner = Some v \<and> parsePortfolioContent raw = v) \<or>
    (JSON_parse raw = None \<and>
     (fence_match raw = None \<or>
      (\<exists>inner. fence_match raw = Some inner \<and> JSON_parse inner = None)) \<and>
     parsePortfolioContent raw = fallback_content)) \<and>
   map fst (own_props fallback_content) = map js [''hero'', ''about'', ''projects'', ''contact''] \<and>
   key_of fallback_content (js ''hero'') =
     Some (JObject [(js ''name'', JString []), (js ''title'', JString []), (js ''bio'', JString [])]) \<and>
   key_of fallback_content (js ''about'') =
     Some (JObject [(js ''description'', JString []), (js ''skills'', JArray []),
                    (js ''interests'', JArray [])]) \<and>
   key_of fallback_content (js ''projects'') = Some (JArray []) \<and>
   key_of fallback_content (js ''contact'') = Some (JObject [(js ''email'', JString [])]) \<and>
   key_of fallback_content (js ''experience'') = None \<and>
   key_of fallback_content (js ''education'') = None"
proof -
  have paths: "(\<exists>v. JSON_parse raw = Some v \<and> parsePortfolioContent raw = v) \<or>
    (\<exists>inner v. JSON_parse raw = None \<and> fence_match raw = Some inner \<and>
        JSON_parse inner = Some v \<and> parsePortfolioContent raw = v) \<or>
    (JSON_parse raw = None \<and>
     (fence_match raw = None \<or>
      (\<exists>inner. fence_match raw = Some inner \<and> JSON_parse inner = None)) \<and>
     parsePortfolioContent raw = fallback_content)"
    by (simp add: parsePortfolioContent_def split: option.splits)
  have keys: "map fst (own_props fallback_content) =
      map js [''hero'', ''about'', ''projects'', ''contact'']"
    by (simp add: fallback_content_def)
  have vals: "key_of fallback_content (js ''hero'') =
     Some (JObject [(js ''name'', JString []), (js ''title'', JString []), (js ''bio'', JString [])])"
    "key_of fallback_content (js ''about'') =
     Some (JObject [(js ''description'', JString []), (js ''skills'', JArray []),
                    (js ''interests'', JArray [])])"
    "key_of fallback_content (js ''projects'') = Some (JArray [])"
    "key_of fallback_content (js ''contact'') = Some (JObject [(js ''email'', JString [])])"
    "key_of fallback_content (js ''experience'') = None"
    "key_of fallback_content (js ''education'') = None"
    by (simp_all add: fallback_content_def key_of_def js_def)
  from paths keys vals show ?thesis by blast
qed

section \<open>Properties of the text-generation service\<close>

text \<open>
  C9: when building the prompt succeeds and the invocation of the primary model fails
  with error \<open>e\<close>: if \<open>e\<close> carries the code \<open>model_overloaded\<close>, exactly one further
  invocation is made, of the fallback model, and its outcome (an error of any kind
  included) is the outcome of the generation; if \<open>e\<close> carries any other code or none,
  no further invocation is made and \<open>e\<close> is the outcome.
\<close>

theorem generatePortfolio_fallback_policy:
  assumes "\<not> prompt_throws sources"
    and "openai sv (length (api_calls w)) primary_model = Inl e"
  shows "(error_code e = Some ''model_overloaded'' \<longrightarrow>
            api_calls (snd (aiService_generatePortfolio sv w sources prefs)) =
              api_calls w @ [primary_model, fallback_model] \<and>
            fst (aiService_generatePortfolio sv w sources prefs) =
              (case openai sv (Suc (length (api_calls w))) fallback_model of
                 Inl e' \<Rightarrow> Inl e'
               | Inr r \<Rightarrow>
                   (case first_choice r of
                      Inl e' \<Rightarrow> Inl e'
                    | Inr c \<Rightarrow> Inr \<lparr>ai_content = parsePortfolioContent c,
                                    tokensUsed = total_tokens r,
                                    ai_model = fallback_model\<rparr>))) \<and>
         (error_code e \<noteq> Some ''model_overloaded'' \<longrightarrow>
            api_calls (snd (aiService_generatePortfolio sv w sources prefs)) =
              api_calls w @ [primary_model] \<and>
            fst (aiService_generatePortfolio sv w sources prefs) = Inl e)"
  using assms
  by (auto simp: aiService_generatePortfolio_def primary_attempt_def generateWithFallback_def
      chat_create_def split: sum.splits prod.splits)

theorem generatePortfolio_fallback_policy_witness:
  "api_calls (snd (aiService_generatePortfolio sv_overloaded empty_world
      [prompt_source ''Backend engineer''] (JObject []))) = [''gpt-4'', ''gpt-3.5-turbo''] \<and>
   fst (aiService_generatePortfolio sv_overloaded empty_world
      [prompt_source ''Backend engineer''] (JObject [])) =
     Inr \<lparr>ai_content = JObject [], tokensUsed = 7, ai_model = ''gpt-3.5-turbo''\<rparr> \<and>
   api_calls (snd (aiService_generatePortfolio sv_rejecting empty_world
      [prompt_source ''Backend engineer''] (JObject []))) = [''gpt-4''] \<and>
   fst (aiService_generatePortfolio sv_rejecting empty_world
      [prompt_source ''Backend engineer''] (JObject [])) =
     Inl (ApiError (Some ''invalid_api_key'') ''rejected'')"
proof -
  have p: "\<not> prompt_throws [prompt_source ''Backend engineer'']"
    by (simp add: prompt_throws_def prompt_source_def)
  have a: "openai sv_overloaded (length (api_calls empty_world)) primary_model =
      Inl (ApiError (Some ''model_overloaded'') ''overloaded'')"
    by (simp add: sv_overloaded_def)
  have b: "openai sv_rejecting (length (api_calls empty_world)) primary_model =
      Inl (ApiError (Some ''invalid_api_key'') ''rejected'')"
    by (simp add: sv_rejecting_def)
  have pc: "parsePortfolioContent ''{}'' = JObject []"
    by (simp add: parsePortfolioContent_def JSON_parse_def)
  from generatePortfolio_fallback_policy [OF p a, of "JObject []"]
       generatePortfolio_fallback_policy [OF p b, of "JObject []"]
  show ?thesis
    by (simp add: error_code_def empty_world_def sv_overloaded_def primary_model_def
        fallback_model_def first_choice_def pc)
qed

section \<open>Properties of the Source Normalizer\<close>

text \<open>
  C10 (as stated, refuted): a source of a type other than github, resume, prompt and
  linkedin would contribute no entry. A \<open>leetcode\<close> source (a type the request validation
  admits) comes out of the normalizer as an entry.
\<close>

theorem unknown_source_skipped_counterexample:
  "fst (processSources sv_rejecting empty_world [leetcode_source]) = [leetcode_source] \<and>
   fst (processSources sv_rejecting empty_world [leetcode_source]) \<noteq> []"
  by (simp add: process_source_def leetcode_source_def)

text \<open>
  C10 (amended): a source whose type is none of github, resume, prompt, linkedin is passed
  through unchanged, as one entry at its position; the sources before and after it are
  processed as they are without it, and no service is called for it.
\<close>

theorem unknown_source_passed_through:
  assumes "stype s \<notin> {''github'', ''resume'', ''prompt'', ''linkedin''}"
  shows "processSources sv w (before @ s # after) =
     (case processSources sv w before of
        (b, w1) \<Rightarrow> (case processSources sv w1 after of (a, w2) \<Rightarrow> (b @ s # a, w2)))"
  using assms
  by (simp add: processSources_append process_source_unknown split: prod.splits)

theorem unknown_source_passed_through_witness:
  "stype leetcode_source \<notin> {''github'', ''resume'', ''prompt'', ''linkedin''} \<and>
   processSources sv_rejecting empty_world ([linkedin_source] @ leetcode_source # [linkedin_source]) =
     ([linkedin_source, leetcode_source, linkedin_source], empty_world)"
proof -
  have u: "stype leetcode_source \<notin> {''github'', ''resume'', ''prompt'', ''linkedin''}"
    by (simp add: leetcode_source_def)
  have l: "processSources sv_rejecting empty_world [linkedin_source] =
      ([linkedin_source], empty_world)"
    by (simp add: process_source_def processLinkedInSource_def linkedin_source_def)
  from unknown_source_passed_through
         [OF u, of sv_rejecting empty_world "[linkedin_source]" "[linkedin_source]"] u l
  show ?thesis by simp
qed

section \<open>Properties of the Generation Orchestrator\<close>

text \<open>
  C8 (the code at the start of a full-generation run): the Iteration record is created
  with \<open>portfolio_id: null\<close>, which the model's \<open>allowNull: false\<close> rejects. Every run of
  \<open>generatePortfolio\<close> ends there: it returns that validation error and leaves the world
  as it was, with no Iteration record, no model invocation and no Portfolio.
\<close>

theorem generatePortfolio_iteration_rejected:
  "generatePortfolio sv w userId sources tmpl prefs =
     (Inl (ValidationError ''notNull Violation: PortfolioIteration.portfolio_id cannot be null''), w)"
  by (simp add: generatePortfolio_def PortfolioIteration_create_def)

text \<open>
  C5: an enhance call with a non-empty section name. For an identifier that is not stored
  the call fails and changes nothing. For a stored portfolio: when the call fails, the
  stored portfolio is left as it was; when it succeeds, the portfolio persisted under that
  identifier is the one returned, with a document that has no member name twice and reads
  back as it is; and, its old document having no member name twice, every top-level key
  other than the section holds what it held before, as the JSON text that is written reads
  back. For an old document that was itself written through the setter (as every
  document that the code persists is), that is exactly what it held before: present with
  the same value, or absent as before.
  The section's key is replaced: it holds what \<open>answer[section] || answer\<close> yields for
  the parsed answer of the model, as it is stored (no key at all when that read yields a
  built-in function). (Writes that the database refuses are not modelled.)
\<close>

theorem enhance_section_frame:
  assumes sec: "sec \<noteq> []"
  shows "(case findByPk w pid of
      None \<Rightarrow>
        enhancePortfolio sv w pid pr (Some sec) = (Inl (Error ''Portfolio not found''), w)
    | Some p \<Rightarrow>
        (case enhancePortfolio sv w pid pr (Some sec) of
           (Inl e, w') \<Rightarrow> findByPk w' pid = Some p
         | (Inr res, w') \<Rightarrow>
             findByPk w' pid = Some (e_portfolio res) \<and>
             top_distinct (content (e_portfolio res)) \<and>
             stringify_parse (content (e_portfolio res)) = content (e_portfolio res) \<and>
             (top_distinct (content p) \<longrightarrow>
                (\<forall>k. k \<noteq> js sec \<longrightarrow>
                   key_of (content (e_portfolio res)) k =
                     map_option stringify_parse (key_of (content p) k) \<and>
                   (stringify_parse (content p) = content p \<longrightarrow>
                      key_of (content (e_portfolio res)) k = key_of (content p) k)) \<and>
                (\<exists>ai wa x.
                   enhanceSection sv
                     (snd (PortfolioIteration_create w (Some pid) pr Enhance pending
                        (Some (content p))))
                     (content p) sec pr = (Inr ai, wa) \<and>
                   section_value sv (ai_content ai) sec = Inr x \<and>
                   key_of (content (e_portfolio res)) (js sec) = stored_val x))))"
proof (cases "findByPk w pid")
  case None
  then show ?thesis by (simp add: enhancePortfolio_def)
next
  case (Some p)
  note found = Some
  obtain r w' where Pair: "enhancePortfolio sv w pid pr (Some sec) = (r, w')"
    by (cases "enhancePortfolio sv w pid pr (Some sec)")
  show ?thesis
  proof (cases r)
    case (Inl e)
    from enhance_failure_inv [OF Pair [unfolded Inl]] found have "findByPk w' pid = Some p"
      by (simp add: findByPk_def)
    with found Pair Inl show ?thesis by simp
  next
    case (Inr res)
    note ok = Pair [unfolded Inr]
    from enhance_success_inv [OF ok found] obtain it w0 p' t w1 where
      cr: "PortfolioIteration_create w (Some pid) pr Enhance pending (Some (content p)) = (Inr it, w0)"
      and st: "enhance_steps sv w0 p pr (Some sec) = (Inr (p', t), w1)"
      and res: "e_portfolio res = p'" and pw: "portfolios w' = portfolios w1"
      by blast
    from create_iteration_some [OF cr] have p0: "portfolios w0 = portfolios w" by blast
    from enhance_steps_section [OF st sec] obtain ai wa x where
      es: "enhanceSection sv w0 (content p) sec pr = (Inr ai, wa)"
      and sx: "section_value sv (ai_content ai) sec = Inr x"
      and p': "p' = p\<lparr>content := content_set_obj (obj_assign (obj_assign [] (members (content p)))
             (obj_put (js sec) x (obj_assign [] (members (content p)))))\<rparr>"
      and w1: "w1 = save_portfolio wa p'"
      by blast
    from enhanceSection_same_db [OF es] p0 have pa: "portfolios wa = portfolios w"
      by (simp add: same_db_def)
    from findByPk_id [OF found] p' have id: "p_id p' = pid" by simp
    from findByPk_save [OF found id pa] w1 pw have f: "findByPk w' pid = Some p'"
      by (simp add: findByPk_def)
    have k1: "key_of (content p') k = map_option stringify_parse (key_of (content p) k)"
      if "top_distinct (content p)" "k \<noteq> js sec" for k
      using that(2) by (simp add: p' key_of_section_update [OF that(1)])
    have k2: "key_of (content p') k = key_of (content p) k"
      if "top_distinct (content p)" "k \<noteq> js sec" "stringify_parse (content p) = content p" for k
    proof (cases "key_of (content p) k")
      case None
      with k1 [OF that(1,2)] show ?thesis by simp
    next
      case (Some v)
      from key_of_stored [OF that(3) Some] k1 [OF that(1,2)] Some show ?thesis by simp
    qed
    have k3: "key_of (content p') (js sec) = stored_val x" if "top_distinct (content p)"
      by (simp add: p' key_of_section_update [OF that])
    from cr es have es': "enhanceSection sv
        (snd (PortfolioIteration_create w (Some pid) pr Enhance pending (Some (content p))))
        (content p) sec pr = (Inr ai, wa)"
      by simp
    have inv: "top_distinct (content p')" "stringify_parse (content p') = content p'"
      by (simp_all add: p' top_distinct_updated content_set_obj_stored)
    from f inv k1 k2 k3 es' sx have th:
      "findByPk w' pid = Some (e_portfolio res) \<and>
       top_distinct (content (e_portfolio res)) \<and>
       stringify_parse (content (e_portfolio res)) = content (e_portfolio res) \<and>
       (top_distinct (content p) \<longrightarrow>
          (\<forall>k. k \<noteq> js sec \<longrightarrow>
             key_of (content (e_portfolio res)) k =
               map_option stringify_parse (key_of (content p) k) \<and>
             (stringify_parse (content p) = content p \<longrightarrow>
                key_of (content (e_portfolio res)) k = key_of (content p) k)) \<and>
          (\<exists>ai wa x.
             enhanceSection sv
               (snd (PortfolioIteration_create w (Some pid) pr Enhance pending
                  (Some (content p))))
               (content p) sec pr = (Inr ai, wa) \<and>
             section_value sv (ai_content ai) sec = Inr x \<and>
             key_of (content (e_portfolio res)) (js sec) = stored_val x))"
      unfolding res by blast
    show ?thesis unfolding found option.case Pair Inr prod.case sum.case by (fact th)
  qed
qed

theorem enhance_section_frame_witness:
  "(case enhancePortfolio (sv_answer projects_answer) world_ada 0 ''Add my compiler project''
          (Some ''projects'') of
      (Inl e, w') \<Rightarrow> False
    | (Inr res, w') \<Rightarrow>
        findByPk w' 0 = Some (e_portfolio res) \<and>
        key_of (content (e_portfolio res)) (js ''hero'') =
          Some (JObject [(js ''name'', JString (js ''Ada''))]) \<and>
        key_of (content (e_portfolio res)) (js ''contact'') =
          Some (JObject [(js ''email'', JString (js ''a@x.com''))]) \<and>
        key_of (content (e_portfolio res)) (js ''projects'') =
          Some (JArray [JObject [(js ''title'', JString (js ''Compiler''))]])) \<and>
   (case enhancePortfolio (sv_answer paris_answer) world_ada 0 ''Tidy up''
          (Some ''constructor'') of
      (Inl e, w') \<Rightarrow> False
    | (Inr res, w') \<Rightarrow>
        key_of (content (e_portfolio res)) (js ''constructor'') = None \<and>
        key_of (content (e_portfolio res)) (js ''hero'') =
          Some (JObject [(js ''name'', JString (js ''Ada''))])) \<and>
   (case enhancePortfolio sv_rejecting world_ada 0 ''Add my compiler project''
          (Some ''projects'') of
      (Inl e, w') \<Rightarrow> findByPk w' 0 = Some portfolio_ada
    | (Inr res, w') \<Rightarrow> False) \<and>
   enhancePortfolio sv_rejecting world_ada 7 ''Add my compiler project'' (Some ''projects'') =
     (Inl (Error ''Portfolio not found''), world_ada)"
proof -
  have fx: "stringify_parse (content portfolio_ada) = content portfolio_ada"
    by (simp add: portfolio_ada_def)
  have hero: "key_of (content portfolio_ada) (js ''hero'') =
      Some (JObject [(js ''name'', JString (js ''Ada''))])"
    and contact: "key_of (content portfolio_ada) (js ''contact'') =
      Some (JObject [(js ''email'', JString (js ''a@x.com''))])"
    by (simp_all add: key_of_def portfolio_ada_def js_def)
  have answer: "enhanceSection (sv_answer t) w0 c sec pr = (Inr ai, wa) \<Longrightarrow>
      ai_content ai = parseSectionContent t sec" for t w0 c sec pr ai wa
    by (auto simp: enhanceSection_def chat_create_def sv_answer_def first_choice_def
        split: sum.splits)
  have 1: "case enhancePortfolio (sv_answer projects_answer) world_ada 0
          ''Add my compiler project'' (Some ''projects'') of
      (Inl e, w') \<Rightarrow> False
    | (Inr res, w') \<Rightarrow>
        findByPk w' 0 = Some (e_portfolio res) \<and>
        key_of (content (e_portfolio res)) (js ''hero'') =
          Some (JObject [(js ''name'', JString (js ''Ada''))]) \<and>
        key_of (content (e_portfolio res)) (js ''contact'') =
          Some (JObject [(js ''email'', JString (js ''a@x.com''))]) \<and>
        key_of (content (e_portfolio res)) (js ''projects'') =
          Some (JArray [JObject [(js ''title'', JString (js ''Compiler''))]])"
  proof -
    define R where "R = enhancePortfolio (sv_answer projects_answer) world_ada 0
      ''Add my compiler project'' (Some ''projects'')"
    have "case R of (Inl e, w') \<Rightarrow> False | (Inr res, w') \<Rightarrow> True"
      unfolding R_def by code_simp
    then obtain res w' where ok: "R = (Inr res, w')"
      by (cases R; cases "fst R") auto
    have ne: "''projects'' \<noteq> []" by simp
    have h: "js ''hero'' \<noteq> js ''projects''" and c: "js ''contact'' \<noteq> js ''projects''"
      by (simp_all add: js_def)
    have sx: "section_value (sv_answer projects_answer)
        (parseSectionContent projects_answer ''projects'') ''projects'' =
        Inr (Json (JArray [JObject [(js ''title'', JString (js ''Compiler''))]]))"
      by code_simp
    note frame = enhance_section_frame [OF ne, where w = world_ada and pid = 0 and sv = "sv_answer projects_answer"
        and pr = "''Add my compiler project''",
        unfolded found_ada option.case ok [unfolded R_def] prod.case sum.case]
    from frame wf_ada
    have f: "findByPk w' 0 = Some (e_portfolio res)"
      and k: "\<And>k. k \<noteq> js ''projects'' \<Longrightarrow> stringify_parse (content portfolio_ada) = content portfolio_ada \<Longrightarrow>
          key_of (content (e_portfolio res)) k = key_of (content portfolio_ada) k"
      and s: "\<exists>ai wa x.
           enhanceSection (sv_answer projects_answer)
             (snd (PortfolioIteration_create world_ada (Some 0) ''Add my compiler project''
                Enhance pending (Some (content portfolio_ada))))
             (content portfolio_ada) ''projects'' ''Add my compiler project'' = (Inr ai, wa) \<and>
           section_value (sv_answer projects_answer) (ai_content ai) ''projects'' = Inr x \<and>
           key_of (content (e_portfolio res)) (js ''projects'') = stored_val x"
      by blast+
    from s answer sx have "key_of (content (e_portfolio res)) (js ''projects'') =
        Some (JArray [JObject [(js ''title'', JString (js ''Compiler''))]])"
      by fastforce
    with f k [OF h fx] k [OF c fx] hero contact ok show ?thesis by (simp add: R_def)
  qed
  have 2: "case enhancePortfolio (sv_answer paris_answer) world_ada 0 ''Tidy up''
          (Some ''constructor'') of
      (Inl e, w') \<Rightarrow> False
    | (Inr res, w') \<Rightarrow>
        key_of (content (e_portfolio res)) (js ''constructor'') = None \<and>
        key_of (content (e_portfolio res)) (js ''hero'') =
          Some (JObject [(js ''name'', JString (js ''Ada''))])"
  proof -
    define R where "R = enhancePortfolio (sv_answer paris_answer) world_ada 0 ''Tidy up''
      (Some ''constructor'')"
    have "case R of (Inl e, w') \<Rightarrow> False | (Inr res, w') \<Rightarrow> True"
      unfolding R_def by code_simp
    then obtain res w' where ok: "R = (Inr res, w')"
      by (cases R; cases "fst R") auto
    have ne: "''constructor'' \<noteq> []" by simp
    have h: "js ''hero'' \<noteq> js ''constructor''" by (simp add: js_def)
    have sx: "section_value (sv_answer paris_answer)
        (parseSectionContent paris_answer ''constructor'') ''constructor'' = Inr BuiltinFunction"
      by code_simp
    note frame = enhance_section_frame [OF ne, where w = world_ada and pid = 0 and sv = "sv_answer paris_answer"
        and pr = "''Tidy up''", unfolded found_ada option.case ok [unfolded R_def] prod.case sum.case]
    from frame wf_ada
    have k: "\<And>k. k \<noteq> js ''constructor'' \<Longrightarrow> stringify_parse (content portfolio_ada) = content portfolio_ada \<Longrightarrow>
          key_of (content (e_portfolio res)) k = key_of (content portfolio_ada) k"
      and s: "\<exists>ai wa x.
           enhanceSection (sv_answer paris_answer)
             (snd (PortfolioIteration_create world_ada (Some 0) ''Tidy up''
                Enhance pending (Some (content portfolio_ada))))
             (content portfolio_ada) ''constructor'' ''Tidy up'' = (Inr ai, wa) \<and>
           section_value (sv_answer paris_answer) (ai_content ai) ''constructor'' = Inr x \<and>
           key_of (content (e_portfolio res)) (js ''constructor'') = stored_val x"
      by blast+
    from s answer sx have "key_of (content (e_portfolio res)) (js ''constructor'') = None"
      by fastforce
    with k [OF h fx] hero ok show ?thesis by (simp add: R_def)
  qed
  have 3: "case enhancePortfolio sv_rejecting world_ada 0 ''Add my compiler project''
          (Some ''projects'') of
      (Inl e, w') \<Rightarrow> findByPk w' 0 = Some portfolio_ada
    | (Inr res, w') \<Rightarrow> False"
  proof -
    define R where "R = enhancePortfolio sv_rejecting world_ada 0 ''Add my compiler project''
      (Some ''projects'')"
    have "case R of (Inl e, w') \<Rightarrow> True | (Inr res, w') \<Rightarrow> False"
      unfolding R_def by code_simp
    then obtain e w' where ko: "R = (Inl e, w')"
      by (cases R; cases "fst R") auto
    have ne: "''projects'' \<noteq> []" by simp
    note frame = enhance_section_frame [OF ne, where w = world_ada and pid = 0 and sv = sv_rejecting
        and pr = "''Add my compiler project''",
        unfolded found_ada option.case ko [unfolded R_def] prod.case sum.case]
    from frame ko show ?thesis by (simp add: R_def)
  qed
  have nf: "findByPk world_ada 7 = None"
    by (simp add: findByPk_def world_ada_def portfolio_ada_def)
  have ne: "''projects'' \<noteq> []" by simp
  note frame = enhance_section_frame [OF ne, where w = world_ada and pid = 7 and sv = sv_rejecting
        and pr = "''Add my compiler project''", unfolded nf option.case]
  from 1 2 3 frame show ?thesis by blast
qed

text \<open>
  C4 (as stated, refuted): with no section, old values would fill the gaps of the new
  document down to \<open>contact.email\<close>. The stored document has
  \<open>contact.email = "a@x.com"\<close>, the model answers \<open>{"contact":{"location":"Paris"}}\<close>,
  a document that lacks \<open>contact.email\<close>; the enhancement succeeds and the persisted
  \<open>contact\<close> is the new one, with no \<open>email\<close>.
\<close>

theorem enhance_whole_email_counterexample:
  "(case enhancePortfolio (sv_answer paris_answer) world_ada 0 ''Add my location: Paris'' None of
      (Inl e, w') \<Rightarrow> False
    | (Inr res, w') \<Rightarrow>
        opt_get (key_of (content portfolio_ada) (js ''contact'')) (js ''email'') =
          Some (JString (js ''a@x.com'')) \<and>
        opt_get (key_of (parsePortfolioContent paris_answer) (js ''contact'')) (js ''email'') = None \<and>
        findByPk w' 0 = Some (e_portfolio res) \<and>
        key_of (content (e_portfolio res)) (js ''contact'') =
          Some (JObject [(js ''location'', JString (js ''Paris''))]) \<and>
        opt_get (key_of (content (e_portfolio res)) (js ''contact'')) (js ''email'') = None)"
  by code_simp


text \<open>
  C4 (amended): when an enhance call without a section succeeds on a stored portfolio
  (whose document has no member name twice), the persisted document is the shallow merge
  of the newly generated document over the old one, as the JSON text that is written
  reads back: each top-level key holds the new document's value when the new document
  has that key, and the old value otherwise, where a number beyond the range of a double
  has become \<open>null\<close>. An old value survives only under a top-level key that the new
  document lacks altogether; it survives unchanged when the old document was itself
  written through the setter.
\<close>

theorem enhance_whole_merge:
  assumes found: "findByPk w pid = Some p"
    and wf: "top_distinct (content p)"
    and ok: "enhancePortfolio sv w pid pr None = (Inr res, w')"
  shows "findByPk w' pid = Some (e_portfolio res) \<and>
    (\<exists>ai wa.
       aiService_generatePortfolio sv
         (snd (PortfolioIteration_create w (Some pid) pr Enhance pending (Some (content p))))
         [enhancement_source pr]
         (JObject [(js ''existing_content'', content p)]) = (Inr ai, wa) \<and>
       (\<forall>k. key_of (content (e_portfolio res)) k =
            (case key_of (ai_content ai) k of
               Some v \<Rightarrow> Some (stringify_parse v)
             | None \<Rightarrow> map_option stringify_parse (key_of (content p) k))) \<and>
       (stringify_parse (content p) = content p \<longrightarrow>
          (\<forall>k. key_of (ai_content ai) k = None \<longrightarrow>
             key_of (content (e_portfolio res)) k = key_of (content p) k)))"
proof -
  from enhance_success_inv [OF ok found] obtain it w0 p' t w1 where
    cr: "PortfolioIteration_create w (Some pid) pr Enhance pending (Some (content p)) = (Inr it, w0)"
    and st: "enhance_steps sv w0 p pr None = (Inr (p', t), w1)"
    and res: "e_portfolio res = p'" and pw: "portfolios w' = portfolios w1"
    by blast
  from create_iteration_some [OF cr] have p0: "portfolios w0 = portfolios w" by blast
  from enhance_steps_whole [OF st] obtain ai wa where
    gen: "aiService_generatePortfolio sv w0 [enhancement_source pr]
        (JObject [(js ''existing_content'', content p)]) = (Inr ai, wa)"
    and p': "p' = p\<lparr>content := content_set_obj (obj_assign (obj_assign [] (members (content p)))
             (obj_assign (obj_assign [] (members (content p))) (members (ai_content ai))))\<rparr>"
    and w1: "w1 = save_portfolio wa p'"
    by blast
  from aiService_generatePortfolio_same_db [OF gen] p0 have pa: "portfolios wa = portfolios w"
    by (simp add: same_db_def)
  from findByPk_id [OF found] p' have id: "p_id p' = pid" by simp
  from findByPk_save [OF found id pa] w1 pw have f: "findByPk w' pid = Some p'"
    by (simp add: findByPk_def)
  have g: "top_distinct (ai_content ai)"
    by (rule aiService_generatePortfolio_top_distinct [OF gen])
  have k1: "key_of (content p') k =
      (case key_of (ai_content ai) k of
         Some v \<Rightarrow> Some (stringify_parse v)
       | None \<Rightarrow> map_option stringify_parse (key_of (content p) k))" for k
    by (simp add: p' key_of_whole_update [OF wf g])
  have k2: "key_of (content p') k = key_of (content p) k"
    if "stringify_parse (content p) = content p" "key_of (ai_content ai) k = None" for k
  proof (cases "key_of (content p) k")
    case None
    with k1 [of k] that(2) show ?thesis by simp
  next
    case (Some v)
    from key_of_stored [OF that(1) Some] k1 [of k] that(2) Some show ?thesis by simp
  qed
  from cr gen have gen': "aiService_generatePortfolio sv
      (snd (PortfolioIteration_create w (Some pid) pr Enhance pending (Some (content p))))
      [enhancement_source pr]
      (JObject [(js ''existing_content'', content p)]) = (Inr ai, wa)"
    by simp
  from f gen' k1 k2 show ?thesis unfolding res by blast
qed

theorem enhance_whole_merge_witness:
  "(case enhancePortfolio (sv_answer paris_answer) world_ada 0 ''Add my location: Paris'' None of
      (Inl e, w') \<Rightarrow> False
    | (Inr res, w') \<Rightarrow>
        findByPk w' 0 = Some (e_portfolio res) \<and>
        key_of (content (e_portfolio res)) (js ''hero'') =
          Some (JObject [(js ''name'', JString (js ''Ada''))]) \<and>
        key_of (content (e_portfolio res)) (js ''contact'') =
          Some (JObject [(js ''location'', JString (js ''Paris''))])) \<and>
   (case enhancePortfolio (sv_answer overflow_answer) world_ada 0 ''Set my contact'' None of
      (Inl e, w') \<Rightarrow> False
    | (Inr res, w') \<Rightarrow>
        key_of (content (e_portfolio res)) (js ''hero'') =
          Some (JObject [(js ''name'', JString (js ''Ada''))]) \<and>
        key_of (content (e_portfolio res)) (js ''contact'') = Some JNull)"
proof -
  have fx: "stringify_parse (content portfolio_ada) = content portfolio_ada"
    by (simp add: portfolio_ada_def)
  have hero: "key_of (content portfolio_ada) (js ''hero'') =
      Some (JObject [(js ''name'', JString (js ''Ada''))])"
    by (simp add: key_of_def portfolio_ada_def js_def)
  have gen: "aiService_generatePortfolio (sv_answer t) w0 ss pf = (Inr ai, wa) \<Longrightarrow>
      \<not> prompt_throws ss \<Longrightarrow> ai_content ai = parsePortfolioContent t" for t w0 ss pf ai wa
    by (auto simp: aiService_generatePortfolio_def primary_attempt_def chat_create_def
        sv_answer_def first_choice_def split: if_splits)
  have np: "\<not> prompt_throws [enhancement_source pr]" for pr
    by (simp add: prompt_throws_def enhancement_source_def)
  have 1: "case enhancePortfolio (sv_answer paris_answer) world_ada 0
          ''Add my location: Paris'' None of
      (Inl e, w') \<Rightarrow> False
    | (Inr res, w') \<Rightarrow>
        findByPk w' 0 = Some (e_portfolio res) \<and>
        key_of (content (e_portfolio res)) (js ''hero'') =
          Some (JObject [(js ''name'', JString (js ''Ada''))]) \<and>
        key_of (content (e_portfolio res)) (js ''contact'') =
          Some (JObject [(js ''location'', JString (js ''Paris''))])"
  proof -
    define R where "R = enhancePortfolio (sv_answer paris_answer) world_ada 0
      ''Add my location: Paris'' None"
    have "case R of (Inl e, w') \<Rightarrow> False | (Inr res, w') \<Rightarrow> True"
      unfolding R_def by code_simp
    then obtain res w' where ok: "R = (Inr res, w')"
      by (cases R; cases "fst R") auto
    have pc: "parsePortfolioContent paris_answer =
        JObject [(js ''contact'', JObject [(js ''location'', JString (js ''Paris''))])]"
      by code_simp
    from enhance_whole_merge [OF found_ada wf_ada ok [unfolded R_def]] obtain ai wa where
      f: "findByPk w' 0 = Some (e_portfolio res)"
      and g: "aiService_generatePortfolio (sv_answer paris_answer)
           (snd (PortfolioIteration_create world_ada (Some 0) ''Add my location: Paris'' Enhance
              pending (Some (content portfolio_ada))))
           [enhancement_source ''Add my location: Paris'']
           (JObject [(js ''existing_content'', content portfolio_ada)]) = (Inr ai, wa)"
      and k: "\<And>k. key_of (content (e_portfolio res)) k =
              (case key_of (ai_content ai) k of
                 Some v \<Rightarrow> Some (stringify_parse v)
               | None \<Rightarrow> map_option stringify_parse (key_of (content portfolio_ada) k))"
      and o: "\<And>k. stringify_parse (content portfolio_ada) = content portfolio_ada \<Longrightarrow>
              key_of (ai_content ai) k = None \<Longrightarrow>
              key_of (content (e_portfolio res)) k = key_of (content portfolio_ada) k"
      by blast
    from gen [OF g np] pc have c: "ai_content ai =
        JObject [(js ''contact'', JObject [(js ''location'', JString (js ''Paris''))])]" by simp
    have "key_of (ai_content ai) (js ''hero'') = None"
      unfolding c by (simp add: key_of_def js_def)
    from o [OF fx this] hero have "key_of (content (e_portfolio res)) (js ''hero'') =
        Some (JObject [(js ''name'', JString (js ''Ada''))])"
      by simp
    moreover have "key_of (content (e_portfolio res)) (js ''contact'') =
        Some (JObject [(js ''location'', JString (js ''Paris''))])"
      unfolding k c by (simp add: key_of_def)
    ultimately show ?thesis using f ok by (simp add: R_def)
  qed
  have 2: "case enhancePortfolio (sv_answer overflow_answer) world_ada 0 ''Set my contact'' None of
      (Inl e, w') \<Rightarrow> False
    | (Inr res, w') \<Rightarrow>
        key_of (content (e_portfolio res)) (js ''hero'') =
          Some (JObject [(js ''name'', JString (js ''Ada''))]) \<and>
        key_of (content (e_portfolio res)) (js ''contact'') = Some JNull"
  proof -
    define R where "R = enhancePortfolio (sv_answer overflow_answer) world_ada 0
      ''Set my contact'' None"
    have "case R of (Inl e, w') \<Rightarrow> False | (Inr res, w') \<Rightarrow> True"
      unfolding R_def by code_simp
    then obtain res w' where ok: "R = (Inr res, w')"
      by (cases R; cases "fst R") auto
    have pc: "parsePortfolioContent overflow_answer = JObject [(js ''contact'', JNumber ''1e400'')]"
      by code_simp
    have inf: "stringify_parse (JNumber ''1e400'') = JNull"
      by code_simp
    from enhance_whole_merge [OF found_ada wf_ada ok [unfolded R_def]] obtain ai wa where
      g: "aiService_generatePortfolio (sv_answer overflow_answer)
           (snd (PortfolioIteration_create world_ada (Some 0) ''Set my contact'' Enhance
              pending (Some (content portfolio_ada))))
           [enhancement_source ''Set my contact'']
           (JObject [(js ''existing_content'', content portfolio_ada)]) = (Inr ai, wa)"
      and k: "\<And>k. key_of (content (e_portfolio res)) k =
              (case key_of (ai_content ai) k of
                 Some v \<Rightarrow> Some (stringify_parse v)
               | None \<Rightarrow> map_option stringify_parse (key_of (content portfolio_ada) k))"
      and o: "\<And>k. stringify_parse (content portfolio_ada) = content portfolio_ada \<Longrightarrow>
              key_of (ai_content ai) k = None \<Longrightarrow>
              key_of (content (e_portfolio res)) k = key_of (content portfolio_ada) k"
      by blast
    from gen [OF g np] pc have c: "ai_content ai = JObject [(js ''contact'', JNumber ''1e400'')]"
      by simp
    have "key_of (ai_content ai) (js ''hero'') = None"
      unfolding c by (simp add: key_of_def js_def)
    from o [OF fx this] hero have "key_of (content (e_portfolio res)) (js ''hero'') =
        Some (JObject [(js ''name'', JString (js ''Ada''))])"
      by simp
    moreover have "key_of (content (e_portfolio res)) (js ''contact'') = Some JNull"
      unfolding k c using inf by (simp add: key_of_def)
    ultimately show ?thesis using ok by (simp add: R_def)
  qed
  from 1 2 show ?thesis by blast
qed

text \<open>
  C7 (as stated, refuted): every enhance call would produce exactly one terminal Iteration
  record, and no record would leave \<open>completed\<close> or \<open>failed\<close>. An enhance call for a
  portfolio that does not exist fails before any Iteration record is created and leaves
  none; and \<open>markFailed\<close> applied to a record that \<open>markCompleted\<close> has completed makes
  it \<open>failed\<close>, since neither method looks at the current status.
\<close>

theorem iteration_terminality_counterexample:
  "fst (enhancePortfolio sv_rejecting empty_world 0 ''Make it shorter please'' None) =
     Inl (Error ''Portfolio not found'') \<and>
   iterations (snd (enhancePortfolio sv_rejecting empty_world 0 ''Make it shorter please'' None)) = [] \<and>
   it_status (fst (markCompleted empty_world pending_iteration (JObject []) 0 0)) = completed \<and>
   it_status (fst (markFailed empty_world
      (fst (markCompleted empty_world pending_iteration (JObject []) 0 0)) (Error ''late''))) = failed"
  by (simp add: enhancePortfolio_def findByPk_def empty_world_def markCompleted_def
      markFailed_def Let_def)

text \<open>
  C7 (amended): in a store where the next identifier is unused, an enhance call for a
  portfolio that does not exist creates no Iteration record and writes no status; an
  enhance call for a stored portfolio appends exactly one Iteration record, and the
  statuses written during the call are exactly two, both to that record: \<open>pending\<close> at
  its creation, then \<open>completed\<close> when the call succeeds or \<open>failed\<close> when it fails, which
  is the status the record ends with. The records that existed before are left as they
  were. (Nothing is said of full generation, nor of writes that the database refuses.)
\<close>

theorem enhance_iteration_lifecycle:
  assumes fresh: "\<forall>r \<in> set (iterations w). it_id r \<noteq> uuid_next w"
  shows "(case findByPk w pid of
      None \<Rightarrow>
        iterations (snd (enhancePortfolio sv w pid pr sec)) = iterations w \<and>
        status_writes (snd (enhancePortfolio sv w pid pr sec)) = status_writes w
    | Some p \<Rightarrow>
        (\<exists>it. iterations (snd (enhancePortfolio sv w pid pr sec)) = iterations w @ [it] \<and>
           it_id it = uuid_next w \<and>
           it_status it =
             (case fst (enhancePortfolio sv w pid pr sec) of
                Inl e \<Rightarrow> failed | Inr res \<Rightarrow> completed) \<and>
           status_writes (snd (enhancePortfolio sv w pid pr sec)) =
             status_writes w @
               [(uuid_next w, pending),
                (uuid_next w,
                 case fst (enhancePortfolio sv w pid pr sec) of
                   Inl e \<Rightarrow> failed | Inr res \<Rightarrow> completed)]))"
proof (cases "findByPk w pid")
  case None
  then show ?thesis by (simp add: enhancePortfolio_def)
next
  case (Some p)
  obtain r0 w0 where cr:
    "PortfolioIteration_create w (Some pid) pr Enhance pending (Some (content p)) = (r0, w0)"
    by (cases "PortfolioIteration_create w (Some pid) pr Enhance pending (Some (content p))")
  from create_iteration_some [OF cr] obtain it where
    r0: "r0 = Inr it" and id: "it_id it = uuid_next w"
    and its: "iterations w0 = iterations w @ [it]"
    and sw: "status_writes w0 = status_writes w @ [(uuid_next w, pending)]"
    by blast
  obtain r1 w1 where st: "enhance_steps sv w0 p pr sec = (r1, w1)"
    by (cases "enhance_steps sv w0 p pr sec")
  from enhance_steps_frame [OF st] its sw have
    i1: "iterations w1 = iterations w @ [it]"
    and s1: "status_writes w1 = status_writes w @ [(uuid_next w, pending)]"
    by simp_all
  have rep: "map (\<lambda>r. if it_id r = uuid_next w then it' else r) (iterations w @ [it]) =
      iterations w @ [it']" if "it_id it' = uuid_next w" for it'
    using map_replace_fresh [of "iterations w" it'] fresh that id by simp
  show ?thesis
  proof (cases r1)
    case (Inl e)
    with Some cr r0 st i1 s1 id rep [of "it\<lparr>it_status := failed, error_message := Some e\<rparr>"]
    show ?thesis
      by (simp add: enhancePortfolio_def markFailed_def save_iteration_def Let_def)
  next
    case (Inr pt)
    obtain p' t where pt: "pt = (p', t)" by (cases pt)
    from Some cr r0 st i1 s1 id Inr pt
      rep [of "it\<lparr>it_status := completed,
                 changes_made := content_set (JObject [(js ''enhanced'', JBool True),
                    (js ''section'', JString (js (section_label sec)))]),
                 tokens_used := t, processing_time_ms := elapsed sv\<rparr>"]
    show ?thesis
      by (simp add: enhancePortfolio_def markCompleted_def save_iteration_def Let_def)
  qed
qed


theorem enhance_iteration_lifecycle_witness:
  "map it_status (iterations (snd (enhancePortfolio (sv_answer paris_answer) world_ada 0
      ''Add my location: Paris'' None))) = [completed] \<and>
   status_writes (snd (enhancePortfolio (sv_answer paris_answer) world_ada 0
      ''Add my location: Paris'' None)) = [(1, pending), (1, completed)] \<and>
   map it_status (iterations (snd (enhancePortfolio sv_rejecting world_ada 0
      ''Add my location: Paris'' None))) = [failed] \<and>
   status_writes (snd (enhancePortfolio sv_rejecting world_ada 0
      ''Add my location: Paris'' None)) = [(1, pending), (1, failed)] \<and>
   iterations (snd (enhancePortfolio sv_rejecting world_ada 7
      ''Add my location: Paris'' None)) = []"
proof -
  have fresh: "\<forall>r \<in> set (iterations world_ada). it_id r \<noteq> uuid_next world_ada"
    by (simp add: world_ada_def)
  have nf: "findByPk world_ada 7 = None"
    by (simp add: findByPk_def world_ada_def portfolio_ada_def)
  have a: "(case fst (enhancePortfolio (sv_answer paris_answer) world_ada 0
      ''Add my location: Paris'' None) of Inl e \<Rightarrow> failed | Inr res \<Rightarrow> completed) = completed"
    by code_simp
  have b: "(case fst (enhancePortfolio sv_rejecting world_ada 0
      ''Add my location: Paris'' None) of Inl e \<Rightarrow> failed | Inr res \<Rightarrow> completed) = failed"
    by code_simp
  have w: "iterations world_ada = []" "status_writes world_ada = []" "uuid_next world_ada = 1"
    by (simp_all add: world_ada_def)
  from enhance_iteration_lifecycle [OF fresh, where pid = 0 and sv = "sv_answer paris_answer"
      and pr = "''Add my location: Paris''" and sec = None]
  have 1: "map it_status (iterations (snd (enhancePortfolio (sv_answer paris_answer) world_ada 0
      ''Add my location: Paris'' None))) = [completed] \<and>
   status_writes (snd (enhancePortfolio (sv_answer paris_answer) world_ada 0
      ''Add my location: Paris'' None)) = [(1, pending), (1, completed)]"
    unfolding found_ada a w by auto
  from enhance_iteration_lifecycle [OF fresh, where pid = 0 and sv = sv_rejecting
      and pr = "''Add my location: Paris''" and sec = None]
  have 2: "map it_status (iterations (snd (enhancePortfolio sv_rejecting world_ada 0
      ''Add my location: Paris'' None))) = [failed] \<and>
   status_writes (snd (enhancePortfolio sv_rejecting world_ada 0
      ''Add my location: Paris'' None)) = [(1, pending), (1, failed)]"
    unfolding found_ada b w by auto
  from enhance_iteration_lifecycle [OF fresh, where pid = 7 and sv = sv_rejecting
      and pr = "''Add my location: Paris''" and sec = None]
  have 3: "iterations (snd (enhancePortfolio sv_rejecting world_ada 7
      ''Add my location: Paris'' None)) = []"
    unfolding nf w by simp
  from 1 2 3 show ?thesis by blast
qed

section \<open>Properties of slug generation\<close>

text \<open>
  C6 (as stated, refuted): for a fixed owner, N portfolios created under one title would
  get the slugs base, base-1, ..., base-(N-1). An owner who already has a portfolio titled
  \<open>Foo 1\<close> (slug \<open>foo-1\<close>) gets \<open>foo\<close> and \<open>foo-2\<close> for two portfolios titled \<open>Foo\<close>; and
  under the title \<open>!!!\<close>, whose base slug is empty, no portfolio is created at all, since
  the empty slug fails the model's validation.
\<close>

theorem slug_sequence_counterexample:
  "fst (create_many (snd (createPortfolio empty_world ''u1'' (js ''Foo 1''))) ''u1'' (js ''Foo'') 2) =
     [js ''foo'', js ''foo-2''] \<and>
   base_slug (js ''Foo'') = js ''foo'' \<and>
   fst (create_many empty_world ''u1'' (js ''!!!'') 2) = []"
  unfolding numeral_2_eq_2
  by (simp add: slug_eval slug_loop.simps show_nat.simps split del: if_split
      cong: prod.case_cong_weak sum.case_cong_weak)

text \<open>
  C6 (amended): the base slug of a title is the title lower-cased, stripped of every
  character that is neither alphanumeric nor white space, with each run of white space
  replaced by one hyphen, cut to 50 code units (this is the definition of \<open>base_slug\<close>);
  it has at most 50 code units, all in \<open>[a-z0-9-]\<close>. \<open>generateSlug\<close> always ends, with a
  slug that no portfolio of the owner has. When the base slug of the title is not empty,
  the title has at most 255 code units, and the owner has no portfolio whose slug is one
  of base, base-1, ..., base-(N-1), then N portfolios created in a row under that title
  get exactly the N distinct slugs base, base-1, ..., base-(N-1), in this order.
\<close>

theorem slug_sequence:
  assumes "base_slug t \<noteq> []" and "length t \<le> 255" and "N \<le> 10 ^ 204"
    and "\<forall>i < N. findByUserAndSlug w u (slug_name (base_slug t) i) = None"
  shows "fst (create_many w u t N) = map (slug_name (base_slug t)) [0..<N] \<and>
    distinct (fst (create_many w u t N)) \<and>
    findByUserAndSlug w' u' (generateSlug w' u' t') = None \<and>
    length (base_slug t') \<le> 50 \<and>
    (\<forall>x \<in> set (base_slug t'). slug_unit x)"
proof -
  from assms(4) have inv: "\<And>i. i < N \<Longrightarrow>
      findByUserAndSlug w u (slug_name (base_slug t) i) \<noteq> None \<longleftrightarrow> i < 0"
    by simp
  have n: "0 + N \<le> N" by simp
  from create_many_invariant [OF assms(1) assms(2) inv n assms(3)] have
    seq: "fst (create_many w u t N) = map (slug_name (base_slug t)) [0..<N]" by simp
  have "distinct (map (slug_name (base_slug t)) [0..<N])"
    by (auto simp: distinct_map inj_on_def dest: slug_name_inj)
  with seq show ?thesis
    by (simp add: generateSlug_def slug_loop_free base_slug_length base_slug_units)
qed


theorem slug_sequence_witness:
  "fst (create_many empty_world ''u1'' (js ''My  Portfolio!'') 3) =
     [js ''my-portfolio'', js ''my-portfolio-1'', js ''my-portfolio-2'']"
proof -
  have b: "base_slug (js ''My  Portfolio!'') = js ''my-portfolio''"
    by (simp add: base_slug_def toLowerCase_def lower_unit_def is_alnum_def is_space_def js_def)
  have 1: "base_slug (js ''My  Portfolio!'') \<noteq> []" unfolding b by (simp add: js_def)
  have 2: "length (js ''My  Portfolio!'') \<le> 255" by (simp add: js_def)
  have 3: "(3::nat) \<le> 10 ^ 204" by simp
  have 4: "\<forall>i<3. findByUserAndSlug empty_world ''u1''
      (slug_name (base_slug (js ''My  Portfolio!'')) i) = None"
    by (simp add: findByUserAndSlug_def empty_world_def)
  have m: "map (slug_name (js ''my-portfolio'')) [0..<3] =
      [js ''my-portfolio'', js ''my-portfolio-1'', js ''my-portfolio-2'']"
    by (simp add: slug_name_def candidate_def js_def show_nat.simps digit_char_def
        upt_conv_Cons)
  from slug_sequence [OF 1 2 3 4] show ?thesis unfolding b m by simp
qed

section \<open>Properties of the Template Renderer and of the artifact cache\<close>





text \<open>
  C2 (as stated, refuted): a successful enhance call would clear the cached
  \<open>generated_html\<close>, \<open>generated_css\<close> and \<open>generated_js\<close>. A portfolio with a cached page is
  enhanced successfully and its document changes; the persisted portfolio still holds the
  cached page, and the preview that follows returns it.
\<close>

theorem enhance_clears_cache_counterexample:
  "(case enhancePortfolio (sv_answer paris_answer) world_ada 0 ''Add my location: Paris'' None of
      (Inl e, w') \<Rightarrow> False
    | (Inr res, w') \<Rightarrow>
        generated_html portfolio_ada = Some (js ''<p>old</p>'') \<and>
        map_option generated_html (findByPk w' 0) = Some (Some (js ''<p>old</p>'')) \<and>
        content (e_portfolio res) \<noteq> content portfolio_ada \<and>
        fst (preview env_2024 w' 0) = Inr (js ''<p>old</p>''))"
  by code_simp

text \<open>
  C2 (amended): a successful enhance call, with or without a section, persists the merged
  document and leaves \<open>generated_html\<close>, \<open>generated_css\<close> and \<open>generated_js\<close> of the
  portfolio exactly as they were; when a non-empty page was cached before the
  enhancement, the preview that follows returns that cached page and changes nothing.
\<close>

theorem enhance_keeps_cache:
  assumes found: "findByPk w pid = Some p"
    and ok: "enhancePortfolio sv w pid pr sec = (Inr res, w')"
  shows "findByPk w' pid = Some (e_portfolio res) \<and>
    generated_html (e_portfolio res) = generated_html p \<and>
    generated_css (e_portfolio res) = generated_css p \<and>
    generated_js (e_portfolio res) = generated_js p \<and>
    (\<forall>h. generated_html p = Some h \<and> h \<noteq> [] \<longrightarrow> preview env w' pid = (Inr h, w'))"
proof -
  from enhance_success_inv [OF ok found] obtain it w0 p' t w1 where
    cr: "PortfolioIteration_create w (Some pid) pr Enhance pending (Some (content p)) = (Inr it, w0)"
    and st: "enhance_steps sv w0 p pr sec = (Inr (p', t), w1)"
    and res: "e_portfolio res = p'" and pw: "portfolios w' = portfolios w1"
    by blast
  from create_iteration_some [OF cr] have p0: "portfolios w0 = portfolios w" by blast
  from enhance_steps_portfolio [OF st] obtain c wa where
    db: "same_db w0 wa" and p': "p' = p\<lparr>content := c\<rparr>" and w1: "w1 = save_portfolio wa p'"
    by blast
  from db p0 have pa: "portfolios wa = portfolios w" by (simp add: same_db_def)
  from findByPk_id [OF found] p' have id: "p_id p' = pid" by simp
  from findByPk_save [OF found id pa] w1 pw have f: "findByPk w' pid = Some p'"
    by (simp add: findByPk_def)
  have g: "generated_html p' = generated_html p" "generated_css p' = generated_css p"
    "generated_js p' = generated_js p"
    by (simp_all add: p')
  have "preview env w' pid = (Inr h, w')" if "generated_html p = Some h" "h \<noteq> []" for h
    using that f g by (simp add: preview_def)
  with f g res show ?thesis by simp
qed

theorem enhance_keeps_cache_witness:
  "(case enhancePortfolio (sv_answer compiler_answer) world_ada 0 ''Add my compiler project''
          (Some ''projects'') of
      (Inl e, w') \<Rightarrow> False
    | (Inr res, w') \<Rightarrow>
        findByPk w' 0 = Some (e_portfolio res) \<and>
        generated_html (e_portfolio res) = Some (js ''<p>old</p>'') \<and>
        generated_css (e_portfolio res) = None \<and>
        generated_js (e_portfolio res) = None \<and>
        preview env_2024 w' 0 = (Inr (js ''<p>old</p>''), w'))"
proof -
  define R where "R = enhancePortfolio (sv_answer compiler_answer) world_ada 0
    ''Add my compiler project'' (Some ''projects'')"
  have "case R of (Inl e, w') \<Rightarrow> False | (Inr res, w') \<Rightarrow> True"
    unfolding R_def by code_simp
  then obtain res w' where ok: "R = (Inr res, w')"
    by (cases R; cases "fst R") auto
  have h: "generated_html portfolio_ada = Some (js ''<p>old</p>'')"
    "generated_css portfolio_ada = None" "generated_js portfolio_ada = None"
    by (simp_all add: portfolio_ada_def)
  have ne: "js ''<p>old</p>'' \<noteq> []" by (simp add: js_def)
  from enhance_keeps_cache [OF found_ada ok [unfolded R_def], of env_2024] h ne
  show ?thesis using ok by (simp add: R_def)
qed

end
